theory Spec2Isabelle
  imports Complex_Main "HOL-Library.Sublist"
begin

text \<open>
  A model of the expense workflow of the repository inbox-automation
  (\<^verbatim>\<open>src/index.ts\<close>, class \<^verbatim>\<open>ExpenseAutomationWorkflow\<close>, and \<^verbatim>\<open>schema.sql\<close>): the
  six steps of \<^verbatim>\<open>run\<close> as functions on an explicit database state, with what each step
  throws as a value. The libraries the workflow calls (PostalMime, unpdf, Zod, Workers AI,
  D1, Cloudflare Workflows) are modelled as far as the workflow uses them. Strings are
  lists of characters; \<^verbatim>\<open>toUpperCase\<close> and \<^verbatim>\<open>COLLATE NOCASE\<close> fold the letters of ASCII.
\<close>

section \<open>JavaScript strings\<close>

text \<open>
  A JavaScript string is modelled as a list of characters. The operations below follow
  ECMAScript for a search string (never a regular expression) and a replacement without
  dollar patterns, which is how \<^verbatim>\<open>src/index.ts\<close> calls them.
\<close>

text \<open>\<^verbatim>\<open>text.includes(pat)\<close>\<close>

fun includes_js :: "'a list \<Rightarrow> 'a list \<Rightarrow> bool" where
  "includes_js [] pat = (pat = [])"
| "includes_js (c # cs) pat = (prefix pat (c # cs) \<or> includes_js cs pat)"

text \<open>\<^verbatim>\<open>text.replace(pat, rep)\<close>: only the first occurrence is replaced.\<close>

fun replace_js :: "'a list \<Rightarrow> 'a list \<Rightarrow> 'a list \<Rightarrow> 'a list" where
  "replace_js [] pat rep = (if pat = [] then rep else [])"
| "replace_js (c # cs) pat rep =
     (if prefix pat (c # cs) then rep @ drop (length pat) (c # cs)
      else c # replace_js cs pat rep)"

text \<open>
  \<^verbatim>\<open>text.replaceAll(pat, rep)\<close>: every occurrence, found from left to right without
  overlap; an empty search string matches before every character and at the end.
\<close>

fun replaceAll_js :: "'a list \<Rightarrow> 'a list \<Rightarrow> 'a list \<Rightarrow> 'a list" where
  "replaceAll_js [] pat rep = (if pat = [] then rep else [])"
| "replaceAll_js (c # cs) pat rep =
     (if pat = [] then rep @ c # replaceAll_js cs pat rep
      else if prefix pat (c # cs) then rep @ replaceAll_js (drop (length pat - 1) cs) pat rep
      else c # replaceAll_js cs pat rep)"

text \<open>\<^verbatim>\<open>text.split(sep)\<close> for a separator of one character.\<close>

fun split_js :: "'a list \<Rightarrow> 'a \<Rightarrow> 'a list list" where
  "split_js [] sep = [[]]"
| "split_js (c # cs) sep =
     (if c = sep then [] # split_js cs sep
      else (case split_js cs sep of [] \<Rightarrow> [[c]] | p # ps \<Rightarrow> (c # p) # ps))"

text \<open>
  Array destructuring reads a missing element as \<^verbatim>\<open>undefined\<close>, which a template
  literal prints as the word itself.
\<close>

definition template_elem :: "string list \<Rightarrow> nat \<Rightarrow> string" where
  "template_elem parts i = (if i < length parts then parts ! i else ''undefined'')"

section \<open>The expense date\<close>

text \<open>
  The pattern \<^verbatim>\<open>/^\d{2}-\d{2}-\d{4}$/\<close> of \<^verbatim>\<open>ExpenseSchema\<close>, as a sequence of
  character classes that has to consume the whole string.
\<close>

datatype atom = Digit | Lit char

fun atom_ok :: "atom \<Rightarrow> char \<Rightarrow> bool" where
  "atom_ok Digit c = (c \<in> set ''0123456789'')"
| "atom_ok (Lit l) c = (c = l)"

fun matches :: "atom list \<Rightarrow> string \<Rightarrow> bool" where
  "matches [] s = (s = [])"
| "matches (a # as) [] = False"
| "matches (a # as) (c # cs) = (atom_ok a c \<and> matches as cs)"

definition date_regex :: "atom list" where
  "date_regex = [Digit, Digit, Lit (CHR ''-''), Digit, Digit, Lit (CHR ''-''),
                 Digit, Digit, Digit, Digit]"

text \<open>
  Step 5 of the workflow:
  \<^verbatim>\<open>const [day, month, year] = aiData.expenseDate.split('-');\<close>
  \<^verbatim>\<open>const formattedDate = `${year}-${month}-${day}`;\<close>
\<close>

definition formattedDate :: "string \<Rightarrow> string" where
  "formattedDate expenseDate =
     (let parts = split_js expenseDate (CHR ''-'');
          day = template_elem parts 0;
          month = template_elem parts 1;
          year = template_elem parts 2
      in year @ ''-'' @ month @ ''-'' @ day)"

text \<open>
  The inverse reformatting that the specification speaks of, from YYYY-MM-DD back to
  DD-MM-YYYY, written after the specification's words: the repository has the forward
  direction only. It is compared with \<open>formattedDate\<close> in the claim on dates.
\<close>

definition restoredDate :: "string \<Rightarrow> string" where
  "restoredDate stored =
     (let parts = split_js stored (CHR ''-'');
          year = template_elem parts 0;
          month = template_elem parts 1;
          day = template_elem parts 2
      in day @ ''-'' @ month @ ''-'' @ year)"

section \<open>Values, errors and the environment\<close>

text \<open>
  A JavaScript value as far as the workflow sees one: the response of the model is such a
  value. Numbers are kept exact (a JSON number is finite and never NaN).
\<close>

datatype jsvalue =
    JUndefined
  | JNull
  | JBool bool
  | JNum rat
  | JStr string
  | JArr "jsvalue list"
  | JObj "(string \<times> jsvalue) list"

text \<open>\<^verbatim>\<open>obj[key]\<close>: a missing property reads as \<^verbatim>\<open>undefined\<close>.\<close>

fun get_prop :: "jsvalue \<Rightarrow> string \<Rightarrow> jsvalue" where
  "get_prop (JObj kvs) key = (case map_of kvs key of None \<Rightarrow> JUndefined | Some v \<Rightarrow> v)"
| "get_prop v key = JUndefined"

text \<open>An issue of a Zod validation: its code, the path of the offending field, a message.\<close>

datatype zod_issue_code = invalid_type | invalid_string | too_small | too_big

datatype zod_issue = ZodIssue (code: zod_issue_code) (path: "string list") (message: string)

text \<open>The failures of a D1 statement: a rejected bind value or a violated constraint.\<close>

datatype d1_failure =
    D1_TYPE_ERROR
  | UNIQUE_constraint_failed string
  | NOT_NULL_constraint_failed string
  | CHECK_constraint_failed string
  | FOREIGN_KEY_constraint_failed

text \<open>
  What a step callback can throw. \<^verbatim>\<open>NonRetryableError\<close> is the error class that the
  workflow engine does not retry; \<^verbatim>\<open>src/index.ts\<close> never constructs one. \<open>Error\<close> is
  a plain \<^verbatim>\<open>Error\<close> with its message, one that the engine does retry.
\<close>

datatype error =
    Error string
  | ZodError "zod_issue list"
  | D1Error d1_failure
  | NonRetryableError string

type_synonym bytes = "nat list"

record attachment =
  filename :: string
  mimeType :: string
  content :: bytes

text \<open>
  The output type of \<^verbatim>\<open>ParsedEmailSchema\<close>. The fields \<^verbatim>\<open>text\<close> and \<^verbatim>\<open>html\<close> are
  \<open>body_text\<close> and \<open>body_html\<close>; \<^verbatim>\<open>from.address\<close> and \<^verbatim>\<open>from.name\<close> are
  \<open>from_address\<close> and \<open>from_name\<close>. An optional field that is absent is \<open>None\<close>.
\<close>

record parsedEmail =
  messageId :: string
  subject :: string
  from_address :: "string option"
  from_name :: "string option"
  body_text :: "string option"
  body_html :: "string option"
  attachments :: "attachment list"

text \<open>
  The environment of the worker: the four configured literals, and the external
  collaborators as functions. \<open>parse_email\<close> stands for PostalMime followed by
  \<^verbatim>\<open>ParsedEmailSchema.parse\<close> and \<open>unpdf_extractText\<close> for \<^verbatim>\<open>getDocumentProxy\<close> followed
  by \<^verbatim>\<open>extractText\<close>; \<open>None\<close> means that the call throws. \<open>AI_run\<close> is
  \<^verbatim>\<open>env.AI.run\<close> for the one model name of the workflow: it gets the number of the
  attempt and the two properties of the request, \<^verbatim>\<open>prompt\<close> and \<^verbatim>\<open>response_format\<close>, and
  gives the \<^verbatim>\<open>response\<close> property of the answer, or throws. Nothing is assumed about how
  the model uses the response format. \<open>CURRENT_TIMESTAMP\<close> is the time of the store when
  the statement of the named step runs.
\<close>

record env =
  YOUR_NAME :: string
  YOUR_EMAIL :: string
  YOUR_ADDRESS :: string
  YOUR_POSTAL_CODE :: string
  parse_email :: "bytes \<Rightarrow> parsedEmail option"
  unpdf_extractText :: "bytes \<Rightarrow> string option"
  AI_run :: "nat \<Rightarrow> string \<Rightarrow> jsvalue \<Rightarrow> jsvalue option"
  CURRENT_TIMESTAMP :: "string \<Rightarrow> nat"

section \<open>Step 3: extract text for AI\<close>

text \<open>The chain of \<^verbatim>\<open>.replace\<close> calls applied to the text of a PDF (line 96).\<close>

definition redact_replace :: "env \<Rightarrow> string \<Rightarrow> string" where
  "redact_replace e t =
     replace_js (replace_js (replace_js (replace_js t
       (YOUR_NAME e) ''Payee Name'')
       (YOUR_EMAIL e) ''Payee Email'')
       (YOUR_ADDRESS e) ''Payee Address'')
       (YOUR_POSTAL_CODE e) ''Payee Postal Code''"

text \<open>The chain of \<^verbatim>\<open>.replaceAll\<close> calls applied to a body (line 103).\<close>

definition redact_replaceAll :: "env \<Rightarrow> string \<Rightarrow> string" where
  "redact_replaceAll e t =
     replaceAll_js (replaceAll_js (replaceAll_js (replaceAll_js t
       (YOUR_NAME e) ''Payee Name'')
       (YOUR_EMAIL e) ''Payee Email'')
       (YOUR_ADDRESS e) ''Payee Address'')
       (YOUR_POSTAL_CODE e) ''Payee Postal Code''"

record extracted =
  contentForAi :: string
  type :: string

text \<open>
  The loop over the attachments: \<^verbatim>\<open>contentForAi\<close> starts empty, the first PDF sets it
  and breaks the loop; a failing text extraction throws.
\<close>

fun attachment_loop :: "env \<Rightarrow> attachment list \<Rightarrow> error + string" where
  "attachment_loop e [] = Inr []"
| "attachment_loop e (a # rest) =
     (if mimeType a = ''application/pdf'' then
        (case unpdf_extractText e (content a) of
           None \<Rightarrow> Inl (Error ''unpdf'')
         | Some pdf_text \<Rightarrow> Inr (redact_replace e pdf_text))
      else attachment_loop e rest)"

text \<open>A string that may be \<^verbatim>\<open>undefined\<close> is truthy when it is there and not empty.\<close>

fun truthy :: "string option \<Rightarrow> bool" where
  "truthy None = False"
| "truthy (Some s) = (s \<noteq> [])"

text \<open>\<^verbatim>\<open>a || b || ''\<close> on strings that may be \<^verbatim>\<open>undefined\<close>.\<close>

definition or_else_empty :: "string option \<Rightarrow> string option \<Rightarrow> string" where
  "or_else_empty a b =
     (if truthy a then the a else if truthy b then the b else [])"

definition extract_text_for_AI :: "env \<Rightarrow> parsedEmail \<Rightarrow> error + extracted" where
  "extract_text_for_AI e emailData =
     (if length (attachments emailData) > 0 then
        (case attachment_loop e (attachments emailData) of
           Inl err \<Rightarrow> Inl err
         | Inr c \<Rightarrow> Inr \<lparr>contentForAi = c, type = ''attachment''\<rparr>)
      else if truthy (body_text emailData) \<or> truthy (body_html emailData) then
        Inr \<lparr>contentForAi =
               or_else_empty (map_option (redact_replaceAll e) (body_text emailData))
                             (map_option (redact_replaceAll e) (body_html emailData)),
             type = ''body''\<rparr>
      else Inr \<lparr>contentForAi = [], type = ''none''\<rparr>)"

section \<open>Validation of the model output\<close>

text \<open>
  \<^verbatim>\<open>ExpenseSchema\<close> is a Zod object schema. Zod is a dependency of the repository; its
  parsing is modelled as documented: every field of the shape is parsed, the issues of
  all fields are collected, each with the path of its field, and the parse succeeds only
  when there is no issue.
\<close>

fun parsedType :: "jsvalue \<Rightarrow> string" where
  "parsedType JUndefined = ''undefined''"
| "parsedType JNull = ''null''"
| "parsedType (JBool b) = ''boolean''"
| "parsedType (JNum n) = ''number''"
| "parsedType (JStr s) = ''string''"
| "parsedType (JArr xs) = ''array''"
| "parsedType (JObj kvs) = ''object''"

definition invalid_type_issue :: "string \<Rightarrow> string list \<Rightarrow> jsvalue \<Rightarrow> zod_issue" where
  "invalid_type_issue expected p v =
     ZodIssue invalid_type p
       (case v of JUndefined \<Rightarrow> ''Required''
        | _ \<Rightarrow> ''Expected '' @ expected @ '', received '' @ parsedType v)"

text \<open>\<^verbatim>\<open>z.string()\<close>\<close>

definition z_string :: "string list \<Rightarrow> jsvalue \<Rightarrow> zod_issue list + string" where
  "z_string p v = (case v of JStr s \<Rightarrow> Inr s | _ \<Rightarrow> Inl [invalid_type_issue ''string'' p v])"

text \<open>\<^verbatim>\<open>z.number()\<close>\<close>

definition z_number :: "string list \<Rightarrow> jsvalue \<Rightarrow> zod_issue list + rat" where
  "z_number p v = (case v of JNum n \<Rightarrow> Inr n | _ \<Rightarrow> Inl [invalid_type_issue ''number'' p v])"

text \<open>\<^verbatim>\<open>z.string().optional()\<close>: \<^verbatim>\<open>undefined\<close> passes and stays \<^verbatim>\<open>undefined\<close>.\<close>

definition z_string_optional :: "string list \<Rightarrow> jsvalue \<Rightarrow> zod_issue list + string option" where
  "z_string_optional p v =
     (case v of JUndefined \<Rightarrow> Inr None
      | _ \<Rightarrow> (case z_string p v of Inl is \<Rightarrow> Inl is | Inr s \<Rightarrow> Inr (Some s)))"

text \<open>\<^verbatim>\<open>z.string().regex(/^\d{2}-\d{2}-\d{4}$/, "Date must be in DD-MM-YYYY format")\<close>\<close>

definition z_expenseDate :: "string list \<Rightarrow> jsvalue \<Rightarrow> zod_issue list + string" where
  "z_expenseDate p v =
     (case z_string p v of
        Inl is \<Rightarrow> Inl is
      | Inr s \<Rightarrow>
          if matches date_regex s then Inr s
          else Inl [ZodIssue invalid_string p ''Date must be in DD-MM-YYYY format''])"

text \<open>
  \<^verbatim>\<open>toUpperCase\<close> on the letters of ASCII; other characters are left as they are.
\<close>

definition upper_char :: "char \<Rightarrow> char" where
  "upper_char c =
     (case map_of (zip ''abcdefghijklmnopqrstuvwxyz'' ''ABCDEFGHIJKLMNOPQRSTUVWXYZ'') c of
        None \<Rightarrow> c | Some u \<Rightarrow> u)"

definition toUpperCase :: "string \<Rightarrow> string" where
  "toUpperCase s = map upper_char s"

text \<open>\<^verbatim>\<open>z.string().length(3).toUpperCase()\<close>\<close>

definition z_currencyCode :: "string list \<Rightarrow> jsvalue \<Rightarrow> zod_issue list + string" where
  "z_currencyCode p v =
     (case z_string p v of
        Inl is \<Rightarrow> Inl is
      | Inr s \<Rightarrow>
          if length s > 3 then Inl [ZodIssue too_big p ''String must contain exactly 3 character(s)'']
          else if length s < 3 then Inl [ZodIssue too_small p ''String must contain exactly 3 character(s)'']
          else Inr (toUpperCase s))"

record ExpenseFields =
  vendor :: string
  expenseDate :: string
  amountValue :: rat
  currencyCode :: string
  category :: string
  description :: "string option"

fun issues_of :: "zod_issue list + 'a \<Rightarrow> zod_issue list" where
  "issues_of (Inl is) = is"
| "issues_of (Inr v) = []"

text \<open>\<^verbatim>\<open>ExpenseSchema.parse\<close>: the issues are what the thrown \<^verbatim>\<open>ZodError\<close> carries.\<close>

definition ExpenseSchema_parse :: "jsvalue \<Rightarrow> zod_issue list + ExpenseFields" where
  "ExpenseSchema_parse response =
     (case response of
        JObj kvs \<Rightarrow>
          (let v = z_string [''vendor''] (get_prop response ''vendor'');
               d = z_expenseDate [''expenseDate''] (get_prop response ''expenseDate'');
               a = z_number [''amountValue''] (get_prop response ''amountValue'');
               c = z_currencyCode [''currencyCode''] (get_prop response ''currencyCode'');
               g = z_string [''category''] (get_prop response ''category'');
               s = z_string_optional [''description''] (get_prop response ''description'')
           in (case (v, d, a, c, g, s) of
                 (Inr v', Inr d', Inr a', Inr c', Inr g', Inr s') \<Rightarrow>
                   Inr \<lparr>vendor = v', expenseDate = d', amountValue = a', currencyCode = c',
                        category = g', description = s'\<rparr>
               | _ \<Rightarrow> Inl (issues_of v @ issues_of d @ issues_of a @ issues_of c
                            @ issues_of g @ issues_of s)))
      | _ \<Rightarrow> Inl [invalid_type_issue ''object'' [] response])"

section \<open>Step 4: send to AI for expense parsing\<close>

definition validCategories :: "string list" where
  "validCategories = [''Meals'', ''Travel'', ''Office Supplies'', ''Software'', ''Hardware'',
                      ''Training'', ''Telecom'', ''Other'']"

text \<open>\<^verbatim>\<open>xs.join(sep)\<close>\<close>

fun join_js :: "string list \<Rightarrow> string \<Rightarrow> string" where
  "join_js [] sep = []"
| "join_js [x] sep = x"
| "join_js (x # y # ys) sep = x @ sep @ join_js (y # ys) sep"

definition prompt :: "string \<Rightarrow> string" where
  \<open>prompt contentForAi' =
     ''You are a personal assistant. You help me with logging my expenses. You receive the extracted textual data from an email/attachment.\<newline>'' @
     ''Based on this data, provide the following output in JSON format:\<newline>'' @
     ''- Vendor: Company Name and/or the service to pay for.\<newline>'' @
     ''- Expense Date: Date of invoice or expense (DD-MM-YYYY).\<newline>'' @
     ''- Amount Value: The final numeric amount to be paid.\<newline>'' @
     ''- Currency Code: The 3-letter currency code (e.g., USD, EUR, CAD).\<newline>'' @
     ''- Category: Classify the expense into one of the following categories: '' @
       join_js validCategories '', '' @ ''. If unsure, use 'Other'.\<newline>'' @
     ''- Description: A brief description of the expense (e.g., "Lunch with client", "Software subscription").\<newline>'' @
     ''\<newline>'' @
     ''Here's the content: '' @ contentForAi' @ ''\<newline>'' @
     ''\<newline>'' @
     ''The output should be a single JSON object matching this schema:\<newline>'' @
     ''{\<newline>'' @
     ''  "vendor": "string",\<newline>'' @
     ''  "expenseDate": "string (DD-MM-YYYY)",\<newline>'' @
     ''  "amountValue": number,\<newline>'' @
     ''  "currencyCode": "string (3-letter code)",\<newline>'' @
     ''  "category": "string (from provided list)",\<newline>'' @
     ''  "description": "string (optional, default to empty string if not found)"\<newline>'' @
     ''}\<newline>'' @
     ''Only return the JSON object. Ensure description is an empty string if not applicable, rather than null or undefined.''\<close>

text \<open>
  The \<^verbatim>\<open>response_format\<close> of the request (lines 140 to 154): a JSON schema with the six
  fields, all required, where \<^verbatim>\<open>category\<close> has the enumeration \<^verbatim>\<open>validCategories\<close>.
\<close>

definition response_format :: jsvalue where
  \<open>response_format =
     JObj [(''type'', JStr ''json_schema''),
           (''json_schema'', JObj
              [(''type'', JStr ''object''),
               (''properties'', JObj
                  [(''vendor'', JObj
                      [(''type'', JStr ''string''),
                       (''description'', JStr ''Company Name or service provider.'')]),
                   (''expenseDate'', JObj
                      [(''type'', JStr ''string''),
                       (''description'', JStr ''Date of invoice/expense in DD-MM-YYYY format.'')]),
                   (''amountValue'', JObj
                      [(''type'', JStr ''number''),
                       (''description'', JStr ''The numeric final amount to be paid.'')]),
                   (''currencyCode'', JObj
                      [(''type'', JStr ''string''),
                       (''description'', JStr ''The 3-letter currency code (e.g., USD, EUR).'')]),
                   (''category'', JObj
                      [(''type'', JStr ''string''),
                       (''enum'', JArr (map JStr validCategories)),
                       (''description'', JStr (''Expense category. Must be one of: '' @
                          join_js validCategories '', '' @ ''.''))]),
                   (''description'', JObj
                      [(''type'', JStr ''string''),
                       (''description'', JStr ''A brief description of the expense.'')])]),
               (''required'', JArr [JStr ''vendor'', JStr ''expenseDate'', JStr ''amountValue'',
                  JStr ''currencyCode'', JStr ''category'', JStr ''description''])])]\<close>

text \<open>
  The callback of step 4. It awaits the promise of step 3 first, so a failed step 3
  is rethrown here; then it calls the model with the prompt and the response format and
  validates the response.
\<close>

definition send_to_AI_for_expense_parsing ::
  "env \<Rightarrow> error + extracted \<Rightarrow> nat \<Rightarrow> error + ExpenseFields" where
  "send_to_AI_for_expense_parsing e parsedContent attempt =
     (case parsedContent of
        Inl err \<Rightarrow> Inl err
      | Inr contentToProcess \<Rightarrow>
          (case AI_run e attempt (prompt (contentForAi contentToProcess)) response_format of
             None \<Rightarrow> Inl (Error ''AI'')
           | Some response \<Rightarrow>
               (case ExpenseSchema_parse response of
                  Inl issues \<Rightarrow> Inl (ZodError issues)
                | Inr parsedAiData \<Rightarrow> Inr parsedAiData)))"

section \<open>The D1 database\<close>

text \<open>
  The tables of \<^verbatim>\<open>schema.sql\<close> that the workflow writes, a row as a record of its
  columns. Timestamps are natural numbers. The table \<^verbatim>\<open>categories\<close> is read only by the
  foreign key of \<^verbatim>\<open>expenses.category\<close>, so only its names are kept.
\<close>

record processed_emails_row =
  pe_id :: int
  pe_message_id :: string
  pe_subject :: string
  pe_from_address :: string
  pe_received_at :: nat
  pe_processed_at :: nat
  pe_status :: string
  pe_is_reimbursable :: int

record expenses_row =
  ex_id :: int
  ex_email_id :: int
  ex_amount :: rat
  ex_currency :: string
  ex_description :: string
  ex_expense_date :: string
  ex_category :: string
  ex_vendor :: string
  ex_is_reimbursable :: int
  ex_status :: string
  ex_created_at :: nat
  ex_updated_at :: nat

record d1 =
  processed_emails :: "processed_emails_row list"
  expenses :: "expenses_row list"
  categories :: "string list"
  seq_processed_emails :: int
  seq_expenses :: int

text \<open>The response of \<^verbatim>\<open>stmt.run()\<close>, with \<^verbatim>\<open>meta\<close> flattened.\<close>

record d1_result =
  success :: bool
  last_row_id :: "int option"
  changes :: "int option"

text \<open>
  \<^verbatim>\<open>INTEGER PRIMARY KEY AUTOINCREMENT\<close>: one more than the largest id the table has ever
  had, which \<^verbatim>\<open>sqlite_sequence\<close> remembers.
\<close>

definition autoincrement :: "int \<Rightarrow> int list \<Rightarrow> int" where
  "autoincrement seq ids = fold max ids (max seq 0) + 1"

text \<open>D1 binds a JavaScript boolean as the integer 1 or 0.\<close>

definition bind_boolean :: "bool \<Rightarrow> int" where
  "bind_boolean b = (if b then 1 else 0)"

text \<open>
  \<^verbatim>\<open>INSERT INTO processed_emails (message_id, subject, from_address, is_reimbursable)
  VALUES (?, ?, ?, ?)\<close>. D1 rejects a bind value that is \<^verbatim>\<open>undefined\<close>; the column
  \<^verbatim>\<open>message_id\<close> is \<^verbatim>\<open>UNIQUE\<close>; \<^verbatim>\<open>status\<close> defaults to \<^verbatim>\<open>'pending'\<close> and the two
  timestamps to the current time. A failed statement leaves the database as it was.
\<close>

definition INSERT_INTO_processed_emails ::
  "nat \<Rightarrow> string \<Rightarrow> string \<Rightarrow> string option \<Rightarrow> bool \<Rightarrow> d1 \<Rightarrow> (error + d1_result) \<times> d1" where
  "INSERT_INTO_processed_emails now message_id subj from_addr is_reimb db =
     (case from_addr of
        None \<Rightarrow> (Inl (D1Error D1_TYPE_ERROR), db)
      | Some addr \<Rightarrow>
          if message_id \<in> set (map pe_message_id (processed_emails db)) then
            (Inl (D1Error (UNIQUE_constraint_failed ''processed_emails.message_id'')), db)
          else
            (let new_id = autoincrement (seq_processed_emails db)
                            (map pe_id (processed_emails db));
                 row = \<lparr>pe_id = new_id, pe_message_id = message_id, pe_subject = subj,
                        pe_from_address = addr, pe_received_at = now, pe_processed_at = now,
                        pe_status = ''pending'',
                        pe_is_reimbursable = bind_boolean is_reimb\<rparr>
             in (Inr \<lparr>success = True, last_row_id = Some new_id, changes = Some 1\<rparr>,
                 db\<lparr>processed_emails := processed_emails db @ [row],
                    seq_processed_emails := new_id\<rparr>)))"

text \<open>The generated column \<^verbatim>\<open>expenses.status\<close>.\<close>

definition generated_status :: "int \<Rightarrow> string" where
  "generated_status is_reimb = (if is_reimb = 0 then ''non_reimbursable'' else ''pending'')"

text \<open>The table constraint that ties \<^verbatim>\<open>status\<close> to \<^verbatim>\<open>is_reimbursable\<close>.\<close>

definition status_check :: "int \<Rightarrow> string \<Rightarrow> bool" where
  "status_check is_reimb st =
     ((is_reimb = 0 \<and> st = ''non_reimbursable'') \<or>
      (is_reimb = 1 \<and> st \<in> set [''pending'', ''approved'', ''rejected'', ''reimbursed'']))"

text \<open>Equality under \<^verbatim>\<open>COLLATE NOCASE\<close>, which folds the letters of ASCII.\<close>

definition nocase_eq :: "string \<Rightarrow> string \<Rightarrow> bool" where
  "nocase_eq a b = (toUpperCase a = toUpperCase b)"

text \<open>
  \<^verbatim>\<open>INSERT INTO expenses (email_id, amount, currency, description, expense_date,
  category, vendor) VALUES (?, ?, ?, ?, ?, ?, ?)\<close>. The column \<^verbatim>\<open>is_reimbursable\<close> is not
  in the statement and takes its default 0. The checks are those of the table:
  \<^verbatim>\<open>amount > 0\<close>, \<^verbatim>\<open>length(currency) = 3\<close>, the status constraint, and the two foreign
  keys, which D1 enforces.
\<close>

definition INSERT_INTO_expenses ::
  "nat \<Rightarrow> int \<Rightarrow> rat \<Rightarrow> string \<Rightarrow> string option \<Rightarrow> string \<Rightarrow> string \<Rightarrow> string \<Rightarrow> d1
     \<Rightarrow> (error + d1_result) \<times> d1" where
  "INSERT_INTO_expenses now email_id amount currency descr expense_date categ vend db =
     (case descr of
        None \<Rightarrow> (Inl (D1Error D1_TYPE_ERROR), db)
      | Some d \<Rightarrow>
          if \<not> amount > 0 then (Inl (D1Error (CHECK_constraint_failed ''amount > 0'')), db)
          else if length currency \<noteq> 3 then
            (Inl (D1Error (CHECK_constraint_failed ''length(currency) = 3'')), db)
          else if \<not> status_check 0 (generated_status 0) then
            (Inl (D1Error (CHECK_constraint_failed ''expenses'')), db)
          else if email_id \<notin> set (map pe_id (processed_emails db)) then
            (Inl (D1Error FOREIGN_KEY_constraint_failed), db)
          else if \<not> list_ex (nocase_eq categ) (categories db) then
            (Inl (D1Error FOREIGN_KEY_constraint_failed), db)
          else
            (let new_id = autoincrement (seq_expenses db) (map ex_id (expenses db));
                 row = \<lparr>ex_id = new_id, ex_email_id = email_id, ex_amount = amount,
                        ex_currency = currency, ex_description = d,
                        ex_expense_date = expense_date, ex_category = categ,
                        ex_vendor = vend, ex_is_reimbursable = 0,
                        ex_status = generated_status 0,
                        ex_created_at = now, ex_updated_at = now\<rparr>
             in (Inr \<lparr>success = True, last_row_id = Some new_id, changes = Some 1\<rparr>,
                 db\<lparr>expenses := expenses db @ [row], seq_expenses := new_id\<rparr>)))"

text \<open>
  \<^verbatim>\<open>UPDATE processed_emails SET status = ?, processed_at = CURRENT_TIMESTAMP
  WHERE id = ?\<close>, with the check of the column \<^verbatim>\<open>status\<close>.
\<close>

definition UPDATE_processed_emails :: "nat \<Rightarrow> string \<Rightarrow> int \<Rightarrow> d1 \<Rightarrow> (error + d1_result) \<times> d1" where
  "UPDATE_processed_emails now st ident db =
     (if st \<notin> set [''pending'', ''processed'', ''failed'', ''skipped''] \<and>
         ident \<in> set (map pe_id (processed_emails db)) then
        (Inl (D1Error (CHECK_constraint_failed ''status'')), db)
      else
        (Inr \<lparr>success = True, last_row_id = Some 0,
              changes = Some (int (length (filter (\<lambda>r. pe_id r = ident) (processed_emails db))))\<rparr>,
         db\<lparr>processed_emails :=
              map (\<lambda>r. if pe_id r = ident then r\<lparr>pe_status := st, pe_processed_at := now\<rparr> else r)
                  (processed_emails db)\<rparr>))"

section \<open>The workflow engine\<close>

record WorkflowStepConfig =
  retries_limit :: nat
  retries_delay :: string
  timeout :: string

definition defaultConfig :: WorkflowStepConfig where
  "defaultConfig = \<lparr>retries_limit = 1, retries_delay = ''0.5 seconds'', timeout = ''10 minutes''\<rparr>"

text \<open>
  \<^verbatim>\<open>step.do(name, config, callback)\<close> of Cloudflare Workflows runs the callback; when
  it throws, the engine runs it again, at most \<^verbatim>\<open>retries.limit\<close> more times (the limit
  counts the retries after the first attempt), unless the error is a
  \<^verbatim>\<open>NonRetryableError\<close>. The result is the value of the first attempt that returns, or
  the error of the last attempt. The callback gets the number of the attempt, counted
  from 0; the third component of the result is the number of attempts made. The delay
  between attempts and the timeout are real time and are not modelled. The engine hands
  the error of a failed step on as an \<^verbatim>\<open>Error\<close> that keeps the message of the thrown value
  and not its other fields; the model hands the thrown value on as it is, so what is said
  below of the error of a failed step that threw a \<^verbatim>\<open>ZodError\<close> is only that it is an
  error.
\<close>

fun attempt_from ::
  "nat \<Rightarrow> nat \<Rightarrow> (nat \<Rightarrow> 's \<Rightarrow> (error + 'a) \<times> 's) \<Rightarrow> 's \<Rightarrow> (error + 'a) \<times> 's \<times> nat" where
  "attempt_from 0 k callback s = (case callback k s of (r, s') \<Rightarrow> (r, s', Suc k))"
| "attempt_from (Suc n) k callback s =
     (case callback k s of
        (Inr v, s') \<Rightarrow> (Inr v, s', Suc k)
      | (Inl (NonRetryableError m), s') \<Rightarrow> (Inl (NonRetryableError m), s', Suc k)
      | (Inl err, s') \<Rightarrow> attempt_from n (Suc k) callback s')"

definition step_do ::
  "WorkflowStepConfig \<Rightarrow> (nat \<Rightarrow> 's \<Rightarrow> (error + 'a) \<times> 's) \<Rightarrow> 's \<Rightarrow> (error + 'a) \<times> 's \<times> nat" where
  "step_do config callback s = attempt_from (retries_limit config) 0 callback s"

section \<open>The steps that write to the database\<close>

record email_record =
  emailRecordId :: "int option"
  rec_success :: bool

text \<open>The callback of step 2.\<close>

definition recordInitialEmailProcessing ::
  "env \<Rightarrow> parsedEmail \<Rightarrow> d1 \<Rightarrow> (error + email_record) \<times> d1" where
  "recordInitialEmailProcessing e emailData db =
     (case INSERT_INTO_processed_emails (CURRENT_TIMESTAMP e ''recordInitialEmailProcessing'')
             (messageId emailData) (subject emailData) (from_address emailData) False db of
        (Inl err, db') \<Rightarrow> (Inl err, db')
      | (Inr dbResponse, db') \<Rightarrow>
          (Inr \<lparr>emailRecordId = last_row_id dbResponse, rec_success = success dbResponse\<rparr>, db'))"

text \<open>\<^verbatim>\<open>!emailDbRecord.emailRecordId\<close>: the id is \<^verbatim>\<open>undefined\<close> or 0.\<close>

definition missing :: "int option \<Rightarrow> bool" where
  "missing i = (case i of None \<Rightarrow> True | Some n \<Rightarrow> n = 0)"

text \<open>
  The callback of step 5. It awaits the promise of step 4 first, so a failed step 4 is
  rethrown here before anything else happens.
\<close>

definition insertExpenseRecord ::
  "env \<Rightarrow> error + ExpenseFields \<Rightarrow> email_record \<Rightarrow> d1 \<Rightarrow> (error + d1_result) \<times> d1" where
  "insertExpenseRecord e aiParsedExpense emailDbRecord db =
     (case aiParsedExpense of
        Inl err \<Rightarrow> (Inl err, db)
      | Inr aiData \<Rightarrow>
          if missing (emailRecordId emailDbRecord) then
            (Inl (Error ''Failed to get emailRecordId for expense insertion.''), db)
          else
            (case INSERT_INTO_expenses (CURRENT_TIMESTAMP e ''insertExpenseRecord'')
                    (the (emailRecordId emailDbRecord)) (amountValue aiData)
                    (currencyCode aiData) (description aiData)
                    (formattedDate (expenseDate aiData)) (category aiData) (vendor aiData) db of
               (Inl err, db') \<Rightarrow> (Inl err, db')
             | (Inr dbResponse, db') \<Rightarrow>
                 (Inr \<lparr>success = success dbResponse, last_row_id = last_row_id dbResponse,
                       changes = changes dbResponse\<rparr>, db')))"

record finalize_result =
  fin_success :: bool
  fin_changes :: "int option"
  fin_error :: "string option"

text \<open>The callback of step 6.\<close>

definition finalizeEmailProcessingStatus ::
  "env \<Rightarrow> email_record \<Rightarrow> d1 \<Rightarrow> (error + finalize_result) \<times> d1" where
  "finalizeEmailProcessingStatus e emailDbRecord db =
     (if missing (emailRecordId emailDbRecord) then
        (Inr \<lparr>fin_success = False, fin_changes = None,
              fin_error = Some ''Missing emailRecordId''\<rparr>, db)
      else
        (case UPDATE_processed_emails (CURRENT_TIMESTAMP e ''finalizeEmailProcessingStatus'')
                ''processed'' (the (emailRecordId emailDbRecord)) db of
           (Inl err, db') \<Rightarrow> (Inl err, db')
         | (Inr dbResponse, db') \<Rightarrow>
             (Inr \<lparr>fin_success = success dbResponse, fin_changes = changes dbResponse,
                   fin_error = None\<rparr>, db')))"

section \<open>The workflow\<close>

text \<open>
  \<^verbatim>\<open>ExpenseAutomationWorkflow.run\<close>. Steps 1, 2 and 5 are awaited where they are
  created, so their failure ends the run there. Steps 3 and 4 are promises that the next
  callback awaits. Step 6 is created after step 5 has returned and is awaited last. The
  result is the error that ends the run, or \<open>Inr ()\<close> when the run completes, with the
  database after the run.
\<close>

definition run_finalize :: "env \<Rightarrow> email_record \<Rightarrow> d1 \<Rightarrow> (error + unit) \<times> d1" where
  "run_finalize e initialEmailRecord db =
     (case step_do defaultConfig (\<lambda>k. finalizeEmailProcessingStatus e initialEmailRecord) db of
        (Inl err, db', n) \<Rightarrow> (Inl err, db')
      | (Inr finalizeStatus, db', n) \<Rightarrow> (Inr (), db'))"

definition run_from_extract :: "env \<Rightarrow> parsedEmail \<Rightarrow> email_record \<Rightarrow> d1 \<Rightarrow> (error + unit) \<times> d1" where
  "run_from_extract e parsedEmailObject initialEmailRecord db =
     (case step_do defaultConfig (\<lambda>k s. (extract_text_for_AI e parsedEmailObject, s)) db of
        (parsedContent, db3, n3) \<Rightarrow>
     (case step_do defaultConfig
             (\<lambda>k s. (send_to_AI_for_expense_parsing e parsedContent k, s)) db3 of
        (aiParsedExpense, db4, n4) \<Rightarrow>
     (case step_do defaultConfig
             (\<lambda>k. insertExpenseRecord e aiParsedExpense initialEmailRecord) db4 of
        (Inl err, db5, n5) \<Rightarrow> (Inl err, db5)
      | (Inr expenseInsertResult, db5, n5) \<Rightarrow> run_finalize e initialEmailRecord db5)))"

definition run :: "env \<Rightarrow> bytes \<Rightarrow> d1 \<Rightarrow> (error + unit) \<times> d1" where
  "run e email db =
     (case step_do defaultConfig
             (\<lambda>k s. (case parse_email e email of
                        None \<Rightarrow> Inl (Error ''parse email'')
                      | Some parsed \<Rightarrow> Inr parsed, s)) db of
        (Inl err, db1, n1) \<Rightarrow> (Inl err, db1)
      | (Inr parsedEmailObject, db1, n1) \<Rightarrow>
     (case step_do defaultConfig (\<lambda>k. recordInitialEmailProcessing e parsedEmailObject) db1 of
        (Inl err, db2, n2) \<Rightarrow> (Inl err, db2)
      | (Inr initialEmailRecord, db2, n2) \<Rightarrow>
          run_from_extract e parsedEmailObject initialEmailRecord db2))"

section \<open>Example inputs\<close>

definition example_email :: parsedEmail where
  "example_email =
     \<lparr>messageId = ''<m1@example.org>'', subject = ''Invoice'',
      from_address = Some ''billing@example.org'', from_name = None,
      body_text = Some ''Invoice for Bob, paid by Bob'', body_html = None,
      attachments = []\<rparr>"

definition example_pdf :: attachment where
  "example_pdf = \<lparr>filename = ''invoice.pdf'', mimeType = ''application/pdf'', content = [37, 80, 68, 70]\<rparr>"

definition example_png :: attachment where
  "example_png = \<lparr>filename = ''logo.png'', mimeType = ''image/png'', content = [137, 80, 78, 71]\<rparr>"

definition example_response :: jsvalue where
  "example_response =
     JObj [(''vendor'', JStr ''Acme''), (''expenseDate'', JStr ''31-12-2024''),
           (''amountValue'', JNum 42), (''currencyCode'', JStr ''usd''),
           (''category'', JStr ''Other''), (''description'', JStr ''Hosting'')]"

definition example_response_no_currencyCode :: jsvalue where
  "example_response_no_currencyCode =
     JObj [(''vendor'', JStr ''Acme''), (''expenseDate'', JStr ''31-12-2024''),
           (''amountValue'', JNum 42),
           (''category'', JStr ''Other''), (''description'', JStr ''Hosting'')]"

definition example_response_Groceries :: jsvalue where
  "example_response_Groceries =
     JObj [(''vendor'', JStr ''Acme''), (''expenseDate'', JStr ''31-12-2024''),
           (''amountValue'', JNum 42), (''currencyCode'', JStr ''usd''),
           (''category'', JStr ''Groceries''), (''description'', JStr ''Hosting'')]"

definition example_response_no_description :: jsvalue where
  "example_response_no_description =
     JObj [(''vendor'', JStr ''Acme''), (''expenseDate'', JStr ''31-12-2024''),
           (''amountValue'', JNum 42), (''currencyCode'', JStr ''usd''),
           (''category'', JStr ''Other'')]"

definition example_fields :: ExpenseFields where
  "example_fields =
     \<lparr>vendor = ''Acme'', expenseDate = ''31-12-2024'', amountValue = 42,
      currencyCode = ''USD'', category = ''Other'', description = Some ''Hosting''\<rparr>"

definition example_env :: env where
  "example_env =
     \<lparr>YOUR_NAME = ''Bob'', YOUR_EMAIL = ''bob@example.org'',
      YOUR_ADDRESS = ''1 Main Street'', YOUR_POSTAL_CODE = ''12345'',
      parse_email = (\<lambda>raw. Some example_email),
      unpdf_extractText = (\<lambda>pdf. Some ''Invoice for Bob, paid by Bob''),
      AI_run = (\<lambda>attempt p format. Some example_response),
      CURRENT_TIMESTAMP = (\<lambda>step. 1700000000)\<rparr>"

definition example_env_no_currencyCode :: env where
  "example_env_no_currencyCode =
     example_env\<lparr>AI_run := (\<lambda>attempt p format. Some example_response_no_currencyCode)\<rparr>"

definition example_db :: d1 where
  "example_db =
     \<lparr>processed_emails = [], expenses = [], categories = validCategories,
      seq_processed_emails = 0, seq_expenses = 0\<rparr>"

definition example_ledger_row :: processed_emails_row where
  "example_ledger_row =
     \<lparr>pe_id = 1, pe_message_id = ''<m1@example.org>'', pe_subject = ''Invoice'',
      pe_from_address = ''billing@example.org'', pe_received_at = 1700000000,
      pe_processed_at = 1700000000, pe_status = ''pending'', pe_is_reimbursable = 0\<rparr>"

definition example_expense_row :: expenses_row where
  "example_expense_row =
     \<lparr>ex_id = 1, ex_email_id = 1, ex_amount = 42, ex_currency = ''USD'',
      ex_description = ''Hosting'', ex_expense_date = ''2024-12-31'',
      ex_category = ''Other'', ex_vendor = ''Acme'', ex_is_reimbursable = 0,
      ex_status = ''non_reimbursable'', ex_created_at = 1700000000,
      ex_updated_at = 1700000000\<rparr>"

text \<open>The database with the ledger entry of the example and no expense.\<close>

definition example_db_with_ledger_row :: d1 where
  "example_db_with_ledger_row =
     \<lparr>processed_emails = [example_ledger_row], expenses = [], categories = validCategories,
      seq_processed_emails = 1, seq_expenses = 0\<rparr>"

text \<open>The database after one run of the workflow on the example.\<close>

definition example_db_after_run :: d1 where
  "example_db_after_run =
     \<lparr>processed_emails = [example_ledger_row\<lparr>pe_status := ''processed''\<rparr>],
      expenses = [example_expense_row], categories = validCategories,
      seq_processed_emails = 1, seq_expenses = 1\<rparr>"

section \<open>Lemmas about the model\<close>

subsection \<open>The engine\<close>

lemma attempt_from_pure:
  "\<exists>j. k \<le> j \<and> j \<le> k + n \<and> attempt_from n k (\<lambda>i s. (f i, s)) s = (f j, s, Suc j)"
proof (induction n arbitrary: k)
  case 0
  show ?case by (rule exI [of _ k]) simp
next
  case (Suc n)
  show ?case
  proof (cases "f k")
    case (Inr v)
    then show ?thesis by (intro exI [of _ k]) simp
  next
    case (Inl err)
    show ?thesis
    proof (cases "\<exists>m. err = NonRetryableError m")
      case True
      with Inl show ?thesis by (intro exI [of _ k]) auto
    next
      case False
      from Suc.IH [of "Suc k"] obtain j where
        j: "Suc k \<le> j" "j \<le> Suc k + n"
          "attempt_from n (Suc k) (\<lambda>i s. (f i, s)) s = (f j, s, Suc j)"
        by blast
      from False Inl have "attempt_from (Suc n) k (\<lambda>i s. (f i, s)) s
          = attempt_from n (Suc k) (\<lambda>i s. (f i, s)) s"
        by (cases err) simp_all
      with j show ?thesis by (intro exI [of _ j]) simp
    qed
  qed
qed

lemma step_do_pure:
  "\<exists>j. j \<le> retries_limit config \<and> step_do config (\<lambda>i s. (f i, s)) s = (f j, s, Suc j)"
  using attempt_from_pure [of 0 "retries_limit config" f s] by (simp add: step_do_def)

lemma attempt_from_same:
  assumes "\<And>err s'. callback s = (Inl err, s') \<Longrightarrow> s' = s"
  shows "\<exists>m. attempt_from n k (\<lambda>i. callback) s = (fst (callback s), snd (callback s), m)"
proof (induction n arbitrary: k)
  case 0
  show ?case by (cases "callback s") simp
next
  case (Suc n)
  obtain r s' where c: "callback s = (r, s')" by (cases "callback s")
  show ?case
  proof (cases r)
    case (Inr v)
    with c show ?thesis by simp
  next
    case (Inl err)
    with c assms have s': "s' = s" by blast
    show ?thesis
    proof (cases "\<exists>m. err = NonRetryableError m")
      case True
      with Inl c show ?thesis by auto
    next
      case False
      with Inl c s' have "attempt_from (Suc n) k (\<lambda>i. callback) s
          = attempt_from n (Suc k) (\<lambda>i. callback) s"
        by (cases err) simp_all
      with Suc.IH [of "Suc k"] show ?thesis by simp
    qed
  qed
qed

lemma step_do_same:
  assumes "\<And>err s'. callback s = (Inl err, s') \<Longrightarrow> s' = s"
  shows "\<exists>m. step_do config (\<lambda>i. callback) s = (fst (callback s), snd (callback s), m)"
  using attempt_from_same [OF assms] by (simp add: step_do_def)

text \<open>A callback that throws the same retryable error every time uses the whole budget.\<close>

lemma attempt_from_always_Error:
  assumes "callback s = (Inl (Error msg), s)"
  shows "attempt_from n k (\<lambda>i. callback) s = (Inl (Error msg), s, Suc (k + n))"
  using assms by (induction n arbitrary: k) simp_all

lemma attempt_from_always_D1Error:
  assumes "callback s = (Inl (D1Error f), s)"
  shows "attempt_from n k (\<lambda>i. callback) s = (Inl (D1Error f), s, Suc (k + n))"
  using assms by (induction n arbitrary: k) simp_all

subsection \<open>The statements\<close>

lemma INSERT_INTO_processed_emails_Inl:
  assumes "INSERT_INTO_processed_emails now m s a b db = (Inl err, db')"
  shows "db' = db"
  using assms by (auto simp: INSERT_INTO_processed_emails_def Let_def split: option.splits if_splits)

lemma recordInitialEmailProcessing_Inl:
  assumes "recordInitialEmailProcessing e p db = (Inl err, db')"
  shows "db' = db"
  using assms INSERT_INTO_processed_emails_Inl
  by (auto simp: recordInitialEmailProcessing_def split: prod.splits sum.splits)

lemma INSERT_INTO_expenses_Inl:
  assumes "INSERT_INTO_expenses now i a c d x g v db = (Inl err, db')"
  shows "db' = db"
  using assms by (auto simp: INSERT_INTO_expenses_def Let_def split: option.splits if_splits)

lemma insertExpenseRecord_Inl:
  assumes "insertExpenseRecord e ai r db = (Inl err, db')"
  shows "db' = db"
  using assms INSERT_INTO_expenses_Inl
  by (auto simp: insertExpenseRecord_def split: prod.splits sum.splits if_splits)

lemma finalizeEmailProcessingStatus_Inr:
  "\<exists>res db'. finalizeEmailProcessingStatus e r db = (Inr res, db')"
  by (simp add: finalizeEmailProcessingStatus_def UPDATE_processed_emails_def)


subsection \<open>The shape of a run\<close>

lemma run_finalize_eq:
  "\<exists>res. finalizeEmailProcessingStatus e r db = (Inr res, snd (finalizeEmailProcessingStatus e r db))
     \<and> run_finalize e r db = (Inr (), snd (finalizeEmailProcessingStatus e r db))"
proof -
  obtain res db' where f: "finalizeEmailProcessingStatus e r db = (Inr res, db')"
    using finalizeEmailProcessingStatus_Inr by blast
  have "\<forall>err s'. finalizeEmailProcessingStatus e r db = (Inl err, s') \<longrightarrow> s' = db"
    using f by simp
  with step_do_same [of "finalizeEmailProcessingStatus e r" db defaultConfig]
  obtain m where "step_do defaultConfig (\<lambda>i. finalizeEmailProcessingStatus e r) db = (Inr res, db', m)"
    using f by auto
  with f show ?thesis by (simp add: run_finalize_def)
qed

lemma run_from_extract_cases:
  assumes "run_from_extract e p rec db2 = (r, db')"
  obtains
    (insert_failed) j err where "j \<le> retries_limit defaultConfig"
      "insertExpenseRecord e
         (send_to_AI_for_expense_parsing e (extract_text_for_AI e p) j) rec db2 = (Inl err, db2)"
      "r = Inl err" "db' = db2"
  | (finalized) j res5 db5 res6 where "j \<le> retries_limit defaultConfig"
      "insertExpenseRecord e
         (send_to_AI_for_expense_parsing e (extract_text_for_AI e p) j) rec db2 = (Inr res5, db5)"
      "finalizeEmailProcessingStatus e rec db5 = (Inr res6, db')" "r = Inr ()"
proof -
  obtain j3 where s3: "step_do defaultConfig (\<lambda>k s. (extract_text_for_AI e p, s)) db2
      = (extract_text_for_AI e p, db2, Suc j3)"
    using step_do_pure [of defaultConfig "\<lambda>k. extract_text_for_AI e p" db2] by blast
  obtain j where j: "j \<le> retries_limit defaultConfig"
    and s4: "step_do defaultConfig
        (\<lambda>k s. (send_to_AI_for_expense_parsing e (extract_text_for_AI e p) k, s)) db2
      = (send_to_AI_for_expense_parsing e (extract_text_for_AI e p) j, db2, Suc j)"
    using step_do_pure [of defaultConfig
        "\<lambda>k. send_to_AI_for_expense_parsing e (extract_text_for_AI e p) k" db2] by blast
  define ai where "ai = send_to_AI_for_expense_parsing e (extract_text_for_AI e p) j"
  have keep: "\<And>err s'. insertExpenseRecord e ai rec db2 = (Inl err, s') \<Longrightarrow> s' = db2"
    by (rule insertExpenseRecord_Inl)
  then have keep': "\<forall>err s'. insertExpenseRecord e ai rec db2 = (Inl err, s') \<longrightarrow> s' = db2"
    by blast
  obtain m where s5: "step_do defaultConfig (\<lambda>k. insertExpenseRecord e ai rec) db2
      = (fst (insertExpenseRecord e ai rec db2), snd (insertExpenseRecord e ai rec db2), m)"
    using step_do_same [of "insertExpenseRecord e ai rec" db2 defaultConfig] keep' by blast
  obtain x db5 where i5: "insertExpenseRecord e ai rec db2 = (x, db5)"
    by (cases "insertExpenseRecord e ai rec db2")
  show thesis
  proof (cases x)
    case (Inl err)
    with i5 keep have "db5 = db2" by blast
    moreover from assms s3 s4 s5 i5 Inl have "r = Inl err" "db' = db5"
      by (simp_all add: run_from_extract_def ai_def)
    ultimately show thesis using insert_failed [of j err] j i5 Inl by (simp add: ai_def)
  next
    case (Inr res5)
    from assms s3 s4 s5 i5 Inr have rf: "run_finalize e rec db5 = (r, db')"
      by (simp add: run_from_extract_def ai_def)
    from run_finalize_eq [of e rec db5] rf obtain res6 where
      "finalizeEmailProcessingStatus e rec db5 = (Inr res6, db')" "r = Inr ()"
      by auto
    then show thesis using finalized [of j res5 db5 res6] j i5 Inr by (simp add: ai_def)
  qed
qed

lemma run_cases:
  assumes "run e email db = (r, db')"
  obtains
    (parse_failed) "parse_email e email = None" "r = Inl (Error ''parse email'')" "db' = db"
  | (record_failed) p err where "parse_email e email = Some p"
      "recordInitialEmailProcessing e p db = (Inl err, db)" "r = Inl err" "db' = db"
  | (recorded) p rec db2 where "parse_email e email = Some p"
      "recordInitialEmailProcessing e p db = (Inr rec, db2)"
      "run_from_extract e p rec db2 = (r, db')"
proof -
  define f where "f = (\<lambda>k::nat. case parse_email e email of
      None \<Rightarrow> Inl (Error ''parse email'') | Some parsed \<Rightarrow> Inr parsed)"
  obtain j1 where s1: "step_do defaultConfig (\<lambda>k s. (f k, s)) db = (f j1, db, Suc j1)"
    using step_do_pure [of defaultConfig f db] by blast
  show thesis
  proof (cases "parse_email e email")
    case None
    with assms s1 have "r = Inl (Error ''parse email'')" "db' = db"
      by (simp_all add: run_def f_def)
    with None show thesis by (rule parse_failed)
  next
    case (Some p)
    have keep: "\<And>err s'. recordInitialEmailProcessing e p db = (Inl err, s') \<Longrightarrow> s' = db"
      by (rule recordInitialEmailProcessing_Inl)
    then have keep': "\<forall>err s'. recordInitialEmailProcessing e p db = (Inl err, s') \<longrightarrow> s' = db"
      by blast
    obtain m where s2: "step_do defaultConfig (\<lambda>k. recordInitialEmailProcessing e p) db
        = (fst (recordInitialEmailProcessing e p db), snd (recordInitialEmailProcessing e p db), m)"
      using step_do_same [of "recordInitialEmailProcessing e p" db defaultConfig] keep' by blast
    obtain x db2 where r2: "recordInitialEmailProcessing e p db = (x, db2)"
      by (cases "recordInitialEmailProcessing e p db")
    show thesis
    proof (cases x)
      case (Inl err)
      with r2 keep have "db2 = db" by blast
      moreover from assms s1 s2 r2 Inl Some have "r = Inl err" "db' = db2"
        by (simp_all add: run_def f_def)
      ultimately show thesis using record_failed [of p err] Some r2 Inl by simp
    next
      case (Inr rec)
      from assms s1 s2 r2 Inr Some have "run_from_extract e p rec db2 = (r, db')"
        by (simp add: run_def f_def)
      then show thesis using recorded [of p rec db2] Some r2 Inr by simp
    qed
  qed
qed

subsection \<open>Dates\<close>

lemma matches_Cons:
  "matches (a # as) s \<longleftrightarrow> (\<exists>c cs. s = c # cs \<and> atom_ok a c \<and> matches as cs)"
  by (cases s) auto

lemma split_js_no_sep: "sep \<notin> set s \<Longrightarrow> split_js s sep = [s]"
  by (induction s) auto

lemma split_js_at_sep:
  "sep \<notin> set p \<Longrightarrow> split_js (p @ sep # rest) sep = p # split_js rest sep"
  by (induction p) auto

lemma digit_not_dash: "atom_ok Digit c \<Longrightarrow> c \<noteq> CHR ''-''"
  by auto

lemma matches_date_regex_shape:
  assumes "matches date_regex s"
  shows "\<exists>d m y. s = d @ CHR ''-'' # m @ CHR ''-'' # y
           \<and> CHR ''-'' \<notin> set d \<and> CHR ''-'' \<notin> set m \<and> CHR ''-'' \<notin> set y"
proof -
  from assms obtain d1 d2 m1 m2 y1 y2 y3 y4 where
    s: "s = [d1, d2, CHR ''-'', m1, m2, CHR ''-'', y1, y2, y3, y4]"
    and d: "atom_ok Digit d1" "atom_ok Digit d2" "atom_ok Digit m1" "atom_ok Digit m2"
      "atom_ok Digit y1" "atom_ok Digit y2" "atom_ok Digit y3" "atom_ok Digit y4"
    unfolding date_regex_def
    by (simp only: matches_Cons matches.simps(1) atom_ok.simps(2)) blast
  have "s = [d1, d2] @ CHR ''-'' # [m1, m2] @ CHR ''-'' # [y1, y2, y3, y4]"
    using s by simp
  moreover have "CHR ''-'' \<notin> set [d1, d2]" "CHR ''-'' \<notin> set [m1, m2]"
    "CHR ''-'' \<notin> set [y1, y2, y3, y4]"
    using d [THEN digit_not_dash] by simp_all
  ultimately show ?thesis by blast
qed

lemma formattedDate_parts:
  assumes "CHR ''-'' \<notin> set d" "CHR ''-'' \<notin> set m" "CHR ''-'' \<notin> set y"
  shows "formattedDate (d @ CHR ''-'' # m @ CHR ''-'' # y) = y @ CHR ''-'' # m @ CHR ''-'' # d"
  using assms by (simp add: formattedDate_def split_js_at_sep split_js_no_sep template_elem_def)

lemma restoredDate_parts:
  assumes "CHR ''-'' \<notin> set d" "CHR ''-'' \<notin> set m" "CHR ''-'' \<notin> set y"
  shows "restoredDate (y @ CHR ''-'' # m @ CHR ''-'' # d) = d @ CHR ''-'' # m @ CHR ''-'' # y"
  using assms by (simp add: restoredDate_def split_js_at_sep split_js_no_sep template_elem_def)

lemma z_expenseDate_Inr:
  assumes "z_expenseDate p v = Inr s"
  shows "v = JStr s \<and> matches date_regex s"
  using assms by (auto simp: z_expenseDate_def z_string_def split: jsvalue.splits if_splits)

subsection \<open>The validation\<close>

lemma ExpenseSchema_parse_Inr_iff:
  "ExpenseSchema_parse response = Inr f \<longleftrightarrow>
     (\<exists>kvs. response = JObj kvs) \<and>
     z_string [''vendor''] (get_prop response ''vendor'') = Inr (vendor f) \<and>
     z_expenseDate [''expenseDate''] (get_prop response ''expenseDate'') = Inr (expenseDate f) \<and>
     z_number [''amountValue''] (get_prop response ''amountValue'') = Inr (amountValue f) \<and>
     z_currencyCode [''currencyCode''] (get_prop response ''currencyCode'') = Inr (currencyCode f) \<and>
     z_string [''category''] (get_prop response ''category'') = Inr (category f) \<and>
     z_string_optional [''description''] (get_prop response ''description'') = Inr (description f)"
proof (cases response)
  case (JObj kvs)
  show ?thesis
    unfolding ExpenseSchema_parse_def Let_def JObj jsvalue.case
    by (auto split: sum.splits)
qed (simp_all add: ExpenseSchema_parse_def)

lemma ExpenseSchema_parse_issues:
  "ExpenseSchema_parse (JObj kvs) = Inl issues \<Longrightarrow>
     issues = issues_of (z_string [''vendor''] (get_prop (JObj kvs) ''vendor''))
       @ issues_of (z_expenseDate [''expenseDate''] (get_prop (JObj kvs) ''expenseDate''))
       @ issues_of (z_number [''amountValue''] (get_prop (JObj kvs) ''amountValue''))
       @ issues_of (z_currencyCode [''currencyCode''] (get_prop (JObj kvs) ''currencyCode''))
       @ issues_of (z_string [''category''] (get_prop (JObj kvs) ''category''))
       @ issues_of (z_string_optional [''description''] (get_prop (JObj kvs) ''description''))"
  unfolding ExpenseSchema_parse_def Let_def jsvalue.case
  by (auto split: sum.splits)

lemma ExpenseSchema_parse_Inl_if:
  assumes "z_string [''vendor''] (get_prop (JObj kvs) ''vendor'') = Inl i1
     \<or> z_expenseDate [''expenseDate''] (get_prop (JObj kvs) ''expenseDate'') = Inl i1
     \<or> z_number [''amountValue''] (get_prop (JObj kvs) ''amountValue'') = Inl i1
     \<or> z_currencyCode [''currencyCode''] (get_prop (JObj kvs) ''currencyCode'') = Inl i1
     \<or> z_string [''category''] (get_prop (JObj kvs) ''category'') = Inl i1
     \<or> z_string_optional [''description''] (get_prop (JObj kvs) ''description'') = Inl i1"
  shows "\<exists>issues. ExpenseSchema_parse (JObj kvs) = Inl issues"
proof (cases "ExpenseSchema_parse (JObj kvs)")
  case (Inl a)
  then show ?thesis by simp
next
  case (Inr f)
  with assms show ?thesis by (auto simp: ExpenseSchema_parse_Inr_iff)
qed

lemma z_string_not_string:
  assumes "\<forall>c. v \<noteq> JStr c"
  shows "z_string p v = Inl [invalid_type_issue ''string'' p v]"
  using assms by (cases v) (simp_all add: z_string_def)

lemma path_invalid_type_issue [simp]: "path (invalid_type_issue x p v) = p"
  by (simp add: invalid_type_issue_def)

lemma z_string_Inr: "z_string p v = Inr s \<longleftrightarrow> v = JStr s"
  by (cases v) (auto simp: z_string_def)

lemma parse_missing_currencyCode:
  assumes "map_of kvs ''currencyCode'' = None"
  shows "\<exists>issues. ExpenseSchema_parse (JObj kvs) = Inl issues
     \<and> ZodIssue invalid_type [''currencyCode''] ''Required'' \<in> set issues"
proof -
  have z: "z_currencyCode [''currencyCode''] (get_prop (JObj kvs) ''currencyCode'')
      = Inl [ZodIssue invalid_type [''currencyCode''] ''Required'']"
    using assms by (simp add: z_currencyCode_def z_string_def invalid_type_issue_def)
  then obtain issues where i: "ExpenseSchema_parse (JObj kvs) = Inl issues"
    using ExpenseSchema_parse_Inl_if [of kvs] by blast
  from ExpenseSchema_parse_issues [OF i] z
  have "ZodIssue invalid_type [''currencyCode''] ''Required'' \<in> set issues" by simp
  with i show ?thesis by blast
qed

lemma description_absent_stays_absent:
  assumes "ExpenseSchema_parse response = Inr ef"
    and "get_prop response ''description'' = JUndefined"
  shows "description ef = None"
  using assms by (simp add: ExpenseSchema_parse_Inr_iff z_string_optional_def)

lemmas parse_example_defs = ExpenseSchema_parse_def example_fields_def z_string_def
  z_number_def z_string_optional_def z_expenseDate_def z_currencyCode_def date_regex_def
  toUpperCase_def upper_char_def

subsection \<open>The text extraction\<close>

lemma attachment_loop_no_pdf:
  assumes "\<forall>a \<in> set as. mimeType a \<noteq> ''application/pdf''"
  shows "attachment_loop e as = Inr []"
  using assms by (induction as) simp_all

lemma attachment_loop_first_pdf:
  assumes "\<forall>a \<in> set pre. mimeType a \<noteq> ''application/pdf''"
    and "mimeType a = ''application/pdf''"
    and "unpdf_extractText e (content a) = Some t"
  shows "attachment_loop e (pre @ a # rest) = Inr (redact_replace e t)"
  using assms by (induction pre) simp_all

lemma extract_text_for_AI_no_pdf:
  assumes "attachments p \<noteq> []"
    and "\<forall>a \<in> set (attachments p). mimeType a \<noteq> ''application/pdf''"
  shows "extract_text_for_AI e p = Inr \<lparr>contentForAi = [], type = ''attachment''\<rparr>"
  using assms by (simp add: extract_text_for_AI_def attachment_loop_no_pdf)

lemma extract_text_for_AI_first_pdf:
  assumes "attachments p = pre @ a # rest"
    and "\<forall>a \<in> set pre. mimeType a \<noteq> ''application/pdf''"
    and "mimeType a = ''application/pdf''"
    and "unpdf_extractText e (content a) = Some t"
  shows "extract_text_for_AI e p
    = Inr \<lparr>contentForAi = redact_replace e t, type = ''attachment''\<rparr>"
  using assms by (simp add: extract_text_for_AI_def attachment_loop_first_pdf)

lemma extract_text_for_AI_no_attachments:
  assumes "attachments p = []"
  shows "extract_text_for_AI e p =
    (if truthy (body_text p) \<or> truthy (body_html p) then
       Inr \<lparr>contentForAi = or_else_empty (map_option (redact_replaceAll e) (body_text p))
                                         (map_option (redact_replaceAll e) (body_html p)),
            type = ''body''\<rparr>
     else Inr \<lparr>contentForAi = [], type = ''none''\<rparr>)"
  using assms by (simp add: extract_text_for_AI_def)

lemma includes_js_append_disjoint:
  assumes "set pat \<inter> set rep = {}" and "pat \<noteq> []" and "includes_js (rep @ xs) pat"
  shows "includes_js xs pat"
  using assms
proof (induction rep)
  case Nil
  then show ?case by simp
next
  case (Cons r rs)
  from Cons.prems(1,2) have "\<not> prefix pat (r # rs @ xs)"
    by (cases pat) auto
  with Cons show ?case by simp
qed

lemma prefix_replaceAll_js:
  assumes "pat \<noteq> []" and "rep \<noteq> []" and "set q \<inter> set rep = {}"
    and "prefix q (replaceAll_js t pat rep)"
  shows "prefix q t"
  using assms
proof (induction t arbitrary: q)
  case Nil
  then show ?case by simp
next
  case (Cons c cs)
  show ?case
  proof (cases q)
    case Nil
    then show ?thesis by simp
  next
    case q: (Cons x q')
    show ?thesis
    proof (cases "prefix pat (c # cs)")
      case True
      obtain r rs where rep: "rep = r # rs" using Cons.prems(2) by (cases rep) auto
      from True Cons.prems(1,4) q rep have "x = r" by simp
      with Cons.prems(3) q rep show ?thesis by simp
    next
      case False
      with Cons.prems(1,4) q have x: "x = c" and p: "prefix q' (replaceAll_js cs pat rep)"
        by simp_all
      from Cons.prems(3) q have "set q' \<inter> set rep = {}" by auto
      from Cons.IH [OF Cons.prems(1,2) this p] x q show ?thesis by simp
    qed
  qed
qed

lemma replaceAll_js_removes:
  assumes "pat \<noteq> []" and "rep \<noteq> []" and "set pat \<inter> set rep = {}"
  shows "\<not> includes_js (replaceAll_js t pat rep) pat"
  using assms
proof (induction t pat rep rule: replaceAll_js.induct)
  case (1 pat rep)
  then show ?case by simp
next
  case (2 c cs pat rep)
  show ?case
  proof (cases "prefix pat (c # cs)")
    case True
    from 2 True have ih: "\<not> includes_js (replaceAll_js (drop (length pat - 1) cs) pat rep) pat"
      by simp
    from includes_js_append_disjoint [OF "2.prems"(3,1)] ih
    have "\<not> includes_js (rep @ replaceAll_js (drop (length pat - 1) cs) pat rep) pat"
      by blast
    with True "2.prems"(1) show ?thesis by simp
  next
    case False
    from 2 False have ih: "\<not> includes_js (replaceAll_js cs pat rep) pat" by simp
    have "\<not> prefix pat (replaceAll_js (c # cs) pat rep)"
      using prefix_replaceAll_js [OF "2.prems"(1,2,3)] False by blast
    with False ih "2.prems"(1) show ?thesis by simp
  qed
qed

lemma replace_js_leaves_second:
  assumes "pat \<noteq> []"
  shows "replace_js (pat @ pat) pat rep = rep @ pat"
  using assms by (cases pat) simp_all

subsection \<open>What each writing step does to the database\<close>

lemma recordInitialEmailProcessing_Inr:
  assumes "recordInitialEmailProcessing e p db = (Inr rec, db2)"
  shows "\<exists>row. from_address p \<noteq> None
     \<and> messageId p \<notin> set (map pe_message_id (processed_emails db))
     \<and> processed_emails db2 = processed_emails db @ [row]
     \<and> pe_message_id row = messageId p
     \<and> pe_status row = ''pending''
     \<and> pe_is_reimbursable row = 0
     \<and> emailRecordId rec = Some (pe_id row)
     \<and> expenses db2 = expenses db"
proof (cases "from_address p")
  case None
  with assms show ?thesis
    by (simp add: recordInitialEmailProcessing_def INSERT_INTO_processed_emails_def)
next
  case (Some addr)
  show ?thesis
  proof (cases "messageId p \<in> set (map pe_message_id (processed_emails db))")
    case True
    with assms Some show ?thesis
      by (simp add: recordInitialEmailProcessing_def INSERT_INTO_processed_emails_def)
  next
    case False
    define new_id where
      "new_id = autoincrement (seq_processed_emails db) (map pe_id (processed_emails db))"
    define row where "row =
      \<lparr>pe_id = new_id, pe_message_id = messageId p, pe_subject = subject p,
       pe_from_address = addr,
       pe_received_at = CURRENT_TIMESTAMP e ''recordInitialEmailProcessing'',
       pe_processed_at = CURRENT_TIMESTAMP e ''recordInitialEmailProcessing'',
       pe_status = ''pending'', pe_is_reimbursable = bind_boolean False\<rparr>"
    from assms Some False have
      rec: "rec = \<lparr>emailRecordId = Some new_id, rec_success = True\<rparr>"
      and db2: "db2 = db\<lparr>processed_emails := processed_emails db @ [row],
                        seq_processed_emails := new_id\<rparr>"
      by (simp_all add: recordInitialEmailProcessing_def INSERT_INTO_processed_emails_def
          Let_def row_def new_id_def)
    show ?thesis
    proof (intro exI conjI)
      show "from_address p \<noteq> None" using Some by simp
      show "messageId p \<notin> set (map pe_message_id (processed_emails db))" by (rule False)
      show "processed_emails db2 = processed_emails db @ [row]" by (simp add: db2)
      show "pe_message_id row = messageId p" by (simp add: row_def)
      show "pe_status row = ''pending''" by (simp add: row_def)
      show "pe_is_reimbursable row = 0" by (simp add: row_def bind_boolean_def)
      show "emailRecordId rec = Some (pe_id row)" by (simp add: rec row_def)
      show "expenses db2 = expenses db" by (simp add: db2)
    qed
  qed
qed

lemma recordInitialEmailProcessing_duplicate:
  assumes "messageId p \<in> set (map pe_message_id (processed_emails db))"
    and "from_address p = Some addr"
  shows "recordInitialEmailProcessing e p db
    = (Inl (D1Error (UNIQUE_constraint_failed ''processed_emails.message_id'')), db)"
  using assms by (simp add: recordInitialEmailProcessing_def INSERT_INTO_processed_emails_def)

lemma fold_max_ge: "(a::int) \<le> fold max ids a"
proof (induction ids arbitrary: a)
  case Nil
  show ?case by simp
next
  case (Cons x xs)
  have "a \<le> max x a" by simp
  also have "\<dots> \<le> fold max xs (max x a)" by (rule Cons.IH)
  finally show ?case by simp
qed

lemma autoincrement_positive: "autoincrement seq ids \<ge> 1"
  using fold_max_ge [of "max seq 0" ids] by (simp add: autoincrement_def)

lemma recordInitialEmailProcessing_id_present:
  assumes "recordInitialEmailProcessing e p db = (Inr rec, db2)"
  shows "\<not> missing (emailRecordId rec)"
proof (cases "from_address p")
  case None
  with assms show ?thesis
    by (simp add: recordInitialEmailProcessing_def INSERT_INTO_processed_emails_def)
next
  case (Some addr)
  show ?thesis
  proof (cases "messageId p \<in> set (map pe_message_id (processed_emails db))")
    case True
    with assms Some show ?thesis
      by (simp add: recordInitialEmailProcessing_def INSERT_INTO_processed_emails_def)
  next
    case False
    with assms Some have "rec = \<lparr>emailRecordId
        = Some (autoincrement (seq_processed_emails db) (map pe_id (processed_emails db))),
        rec_success = True\<rparr>"
      by (simp add: recordInitialEmailProcessing_def INSERT_INTO_processed_emails_def Let_def)
    with autoincrement_positive [of "seq_processed_emails db" "map pe_id (processed_emails db)"]
    show ?thesis by (simp add: missing_def)
  qed
qed

lemma insertExpenseRecord_missing_id:
  assumes "missing (emailRecordId rec)"
  shows "\<exists>err. insertExpenseRecord e ai rec db = (Inl err, db)"
  using assms by (cases ai) (simp_all add: insertExpenseRecord_def)

lemma INSERT_INTO_expenses_Inr:
  assumes "INSERT_INTO_expenses now i a c d x g v db = (Inr res, db')"
  shows "\<exists>row. expenses db' = expenses db @ [row]
     \<and> ex_email_id row = i
     \<and> ex_is_reimbursable row = 0
     \<and> ex_status row = ''non_reimbursable''
     \<and> processed_emails db' = processed_emails db"
proof -
  define row where "row =
    \<lparr>ex_id = autoincrement (seq_expenses db) (map ex_id (expenses db)), ex_email_id = i,
     ex_amount = a, ex_currency = c, ex_description = the d, ex_expense_date = x,
     ex_category = g, ex_vendor = v, ex_is_reimbursable = 0,
     ex_status = generated_status 0, ex_created_at = now, ex_updated_at = now\<rparr>"
  from assms have db': "db' = db\<lparr>expenses := expenses db @ [row],
      seq_expenses := autoincrement (seq_expenses db) (map ex_id (expenses db))\<rparr>"
    by (simp add: INSERT_INTO_expenses_def Let_def row_def split: option.splits if_splits)
  show ?thesis
  proof (intro exI conjI)
    show "expenses db' = expenses db @ [row]" by (simp add: db')
    show "ex_email_id row = i" by (simp add: row_def)
    show "ex_is_reimbursable row = 0" by (simp add: row_def)
    show "ex_status row = ''non_reimbursable''" by (simp add: row_def generated_status_def)
    show "processed_emails db' = processed_emails db" by (simp add: db')
  qed
qed

lemma insertExpenseRecord_Inr:
  assumes "insertExpenseRecord e ai rec db = (Inr res, db')"
  shows "\<exists>aiData row. ai = Inr aiData
     \<and> expenses db' = expenses db @ [row]
     \<and> ex_is_reimbursable row = 0
     \<and> ex_status row = ''non_reimbursable''
     \<and> processed_emails db' = processed_emails db"
proof (cases ai)
  case (Inl err)
  with assms show ?thesis by (simp add: insertExpenseRecord_def)
next
  case (Inr aiData)
  let ?ins = "INSERT_INTO_expenses (CURRENT_TIMESTAMP e ''insertExpenseRecord'')
      (the (emailRecordId rec)) (amountValue aiData) (currencyCode aiData) (description aiData)
      (formattedDate (expenseDate aiData)) (category aiData) (vendor aiData) db"
  obtain x dbx where ins: "?ins = (x, dbx)" by (cases ?ins)
  from assms Inr ins obtain res' where "x = Inr res'" "dbx = db'"
    by (cases x) (simp_all add: insertExpenseRecord_def split: if_splits)
  with ins INSERT_INTO_expenses_Inr [of _ _ _ _ _ _ _ _ db res' db']
  obtain row where "expenses db' = expenses db @ [row]" "ex_is_reimbursable row = 0"
    "ex_status row = ''non_reimbursable''" "processed_emails db' = processed_emails db"
    by blast
  with Inr show ?thesis by blast
qed

lemma insertExpenseRecord_rethrows:
  "insertExpenseRecord e (Inl err) rec db = (Inl err, db)"
  by (simp add: insertExpenseRecord_def)

lemma insertExpenseRecord_unknown_category:
  assumes "\<not> list_ex (nocase_eq (category aiData)) (categories db)"
  shows "\<exists>err. insertExpenseRecord e (Inr aiData) rec db = (Inl err, db)"
  using assms
  by (simp add: insertExpenseRecord_def INSERT_INTO_expenses_def Let_def
      split: option.splits)

lemma set_map_if_cases:
  assumes "row \<in> set (map (\<lambda>r. if P r then g r else r) xs)"
  shows "(\<exists>r \<in> set xs. P r \<and> row = g r) \<or> (row \<in> set xs \<and> \<not> P row)"
  using assms by (induction xs) (auto split: if_splits)

lemma finalizeEmailProcessingStatus_rows:
  assumes "finalizeEmailProcessingStatus e rec db = (x, db')"
  shows "expenses db' = expenses db
     \<and> map pe_message_id (processed_emails db') = map pe_message_id (processed_emails db)
     \<and> map pe_is_reimbursable (processed_emails db') = map pe_is_reimbursable (processed_emails db)"
proof (cases "missing (emailRecordId rec)")
  case True
  with assms show ?thesis by (simp add: finalizeEmailProcessingStatus_def)
next
  case False
  with assms have "db' = db\<lparr>processed_emails :=
      map (\<lambda>r. if pe_id r = the (emailRecordId rec)
                then r\<lparr>pe_status := ''processed'',
                       pe_processed_at := CURRENT_TIMESTAMP e ''finalizeEmailProcessingStatus''\<rparr>
                else r) (processed_emails db)\<rparr>"
    by (auto simp: finalizeEmailProcessingStatus_def UPDATE_processed_emails_def)
  then show ?thesis by (simp add: comp_def if_distrib cong: if_cong)
qed

subsection \<open>What a run does to the database\<close>

lemma run_from_extract_effect:
  assumes "run_from_extract e p rec db2 = (r, db')"
  shows "\<exists>new_ex. expenses db' = expenses db2 @ new_ex \<and> length new_ex \<le> 1
     \<and> (\<forall>row \<in> set new_ex. ex_is_reimbursable row = 0 \<and> ex_status row = ''non_reimbursable'')
     \<and> map pe_message_id (processed_emails db') = map pe_message_id (processed_emails db2)
     \<and> map pe_is_reimbursable (processed_emails db')
         = map pe_is_reimbursable (processed_emails db2)"
  using assms
proof (cases rule: run_from_extract_cases)
  case (insert_failed j err)
  then show ?thesis by (intro exI [of _ "[]"]) simp
next
  case (finalized j res5 db5 res6)
  from insertExpenseRecord_Inr [OF finalized(2)] obtain row where
    row: "expenses db5 = expenses db2 @ [row]" "ex_is_reimbursable row = 0"
      "ex_status row = ''non_reimbursable''" "processed_emails db5 = processed_emails db2"
    by blast
  from finalizeEmailProcessingStatus_rows [OF finalized(3)] row
  show ?thesis by (intro exI [of _ "[row]"]) simp
qed

lemma run_from_extract_missing_id:
  assumes "missing (emailRecordId rec)"
  shows "\<exists>err. run_from_extract e p rec db = (Inl err, db)"
proof -
  obtain r db' where x: "run_from_extract e p rec db = (r, db')"
    by (cases "run_from_extract e p rec db")
  from x show ?thesis
  proof (cases rule: run_from_extract_cases)
    case (insert_failed j err)
    with x show ?thesis by simp
  next
    case (finalized j res5 db5 res6)
    with insertExpenseRecord_missing_id [OF assms, of e
        "send_to_AI_for_expense_parsing e (extract_text_for_AI e p) j" db]
    show ?thesis by auto
  qed
qed

lemma run_effect:
  assumes "run e email db = (r, db')"
  shows "\<exists>k new_ex. k \<le> 1
     \<and> map pe_is_reimbursable (processed_emails db')
         = map pe_is_reimbursable (processed_emails db) @ replicate k 0
     \<and> length new_ex \<le> 1
     \<and> expenses db' = expenses db @ new_ex
     \<and> (\<forall>row \<in> set new_ex. ex_is_reimbursable row = 0 \<and> ex_status row = ''non_reimbursable'')"
  using assms
proof (cases rule: run_cases)
  case parse_failed
  then show ?thesis by (intro exI [of _ 0] exI [of _ "[]"]) simp
next
  case (record_failed p err)
  then show ?thesis by (intro exI [of _ 0] exI [of _ "[]"]) simp
next
  case (recorded p rec db2)
  from recordInitialEmailProcessing_Inr [OF recorded(2)] obtain row where
    row: "processed_emails db2 = processed_emails db @ [row]" "pe_is_reimbursable row = 0"
      "expenses db2 = expenses db"
    by blast
  from run_from_extract_effect [OF recorded(3)] obtain new_ex where
    "expenses db' = expenses db2 @ new_ex" "length new_ex \<le> 1"
    "\<forall>row \<in> set new_ex. ex_is_reimbursable row = 0 \<and> ex_status row = ''non_reimbursable''"
    "map pe_is_reimbursable (processed_emails db') = map pe_is_reimbursable (processed_emails db2)"
    by blast
  with row show ?thesis by (intro exI [of _ 1] exI [of _ new_ex]) simp
qed

lemma run_duplicate_messageId:
  assumes "parse_email e email = Some p"
    and "messageId p \<in> set (map pe_message_id (processed_emails db))"
    and "from_address p = Some addr"
  shows "run e email db
    = (Inl (D1Error (UNIQUE_constraint_failed ''processed_emails.message_id'')), db)"
proof -
  obtain r db' where run: "run e email db = (r, db')" by (cases "run e email db")
  note dup = recordInitialEmailProcessing_duplicate [OF assms(2,3), of e]
  from run have "r = Inl (D1Error (UNIQUE_constraint_failed ''processed_emails.message_id''))
      \<and> db' = db"
  proof (cases rule: run_cases)
    case parse_failed
    with assms(1) show ?thesis by simp
  next
    case (record_failed p' err)
    with assms(1) dup show ?thesis by simp
  next
    case (recorded p' rec db2)
    with assms(1) dup show ?thesis by simp
  qed
  with run show ?thesis by simp
qed

lemma length_filter_distinct:
  assumes "distinct (map f xs)" and "m \<in> set (map f xs)"
  shows "length (filter (\<lambda>x. f x = m) xs) = 1"
  using assms
proof (induction xs)
  case Nil
  then show ?case by simp
next
  case (Cons x xs)
  show ?case
  proof (cases "f x = m")
    case True
    with Cons.prems have "m \<notin> set (map f xs)" by auto
    then have "filter (\<lambda>x. f x = m) xs = []" by (auto simp: filter_empty_conv)
    with True show ?thesis by simp
  next
    case False
    with Cons show ?thesis by auto
  qed
qed

lemmas run_example_defs = run_def run_from_extract_def run_finalize_def step_do_def defaultConfig_def
      example_env_def example_db_def example_db_after_run_def example_email_def
      example_ledger_row_def example_expense_row_def example_response_def
      recordInitialEmailProcessing_def INSERT_INTO_processed_emails_def autoincrement_def
      bind_boolean_def extract_text_for_AI_def redact_replaceAll_def or_else_empty_def
      send_to_AI_for_expense_parsing_def ExpenseSchema_parse_def z_string_def
      z_number_def z_string_optional_def z_expenseDate_def z_currencyCode_def date_regex_def
      toUpperCase_def upper_char_def insertExpenseRecord_def missing_def
      INSERT_INTO_expenses_def generated_status_def status_check_def nocase_eq_def
      validCategories_def formattedDate_def template_elem_def
      finalizeEmailProcessingStatus_def UPDATE_processed_emails_def

lemma example_run:
  "run example_env [] example_db = (Inr (), example_db_after_run)"
  by (simp add: run_example_defs)

subsection \<open>The reformatting is an involution\<close>

lemma formattedDate_involution:
  assumes "matches date_regex s"
  shows "formattedDate (formattedDate s) = s"
proof -
  from matches_date_regex_shape [OF assms] obtain d m y where
    s: "s = d @ CHR ''-'' # m @ CHR ''-'' # y"
    and n: "CHR ''-'' \<notin> set d" "CHR ''-'' \<notin> set m" "CHR ''-'' \<notin> set y"
    by blast
  show ?thesis
    unfolding s by (simp add: formattedDate_parts [OF n] formattedDate_parts [OF n(3,2,1)])
qed

section \<open>The claims\<close>

text \<open>
  C1, as the code has it. When the workflow runs twice for messages with the same
  \<^verbatim>\<open>messageId\<close> (a sender address present, the ledger's message ids distinct before),
  the ledger afterwards holds exactly one entry with that id and the two runs together
  insert at most one expense row. The second run does not look the existing entry up and
  does not continue: the insert of step 2 fails on the \<^verbatim>\<open>UNIQUE\<close> constraint at each of
  its two attempts, the run ends with that error, and the database is left as the first
  run left it.
\<close>

theorem run_twice_same_messageId:
  assumes p1: "parse_email e1 email1 = Some p1"
    and p2: "parse_email e2 email2 = Some p2"
    and same: "messageId p2 = messageId p1"
    and a1: "from_address p1 = Some a1"
    and a2: "from_address p2 = Some a2"
    and d: "distinct (map pe_message_id (processed_emails db))"
    and run1: "run e1 email1 db = (r1, db1)"
    and run2: "run e2 email2 db1 = (r2, db2)"
  shows "length (filter (\<lambda>row. pe_message_id row = messageId p1) (processed_emails db2)) = 1
     \<and> (\<exists>new_ex. expenses db2 = expenses db @ new_ex \<and> length new_ex \<le> 1)
     \<and> r2 = Inl (D1Error (UNIQUE_constraint_failed ''processed_emails.message_id''))
     \<and> db2 = db1
     \<and> step_do defaultConfig (\<lambda>k. recordInitialEmailProcessing e2 p2) db1
         = (Inl (D1Error (UNIQUE_constraint_failed ''processed_emails.message_id'')), db1, 2)"
proof -
  let ?m = "messageId p1"
  let ?ids = "\<lambda>db. map pe_message_id (processed_emails db)"
  have first: "distinct (?ids db1) \<and> ?m \<in> set (?ids db1)
      \<and> (\<exists>new_ex. expenses db1 = expenses db @ new_ex \<and> length new_ex \<le> 1)"
    using run1
  proof (cases rule: run_cases)
    case parse_failed
    with p1 show ?thesis by simp
  next
    case (record_failed p err)
    with p1 have f: "recordInitialEmailProcessing e1 p1 db = (Inl err, db)" by simp
    have "?m \<in> set (?ids db)"
    proof (rule ccontr)
      assume "?m \<notin> set (?ids db)"
      with a1 f show False
        by (simp add: recordInitialEmailProcessing_def INSERT_INTO_processed_emails_def Let_def)
    qed
    with d record_failed show ?thesis by simp
  next
    case (recorded p rec dbr)
    with p1 have s: "recordInitialEmailProcessing e1 p1 db = (Inr rec, dbr)"
      and x: "run_from_extract e1 p1 rec dbr = (r1, db1)" by simp_all
    from recordInitialEmailProcessing_Inr [OF s] obtain row where
      row: "?m \<notin> set (?ids db)" "processed_emails dbr = processed_emails db @ [row]"
        "pe_message_id row = ?m" "expenses dbr = expenses db"
      by blast
    from run_from_extract_effect [OF x] obtain new_ex where
      n: "expenses db1 = expenses dbr @ new_ex" "length new_ex \<le> 1" "?ids db1 = ?ids dbr"
      by blast
    from row n d have "distinct (?ids db1)" "?m \<in> set (?ids db1)" by simp_all
    moreover from row n have "\<exists>new_ex. expenses db1 = expenses db @ new_ex \<and> length new_ex \<le> 1"
      by simp
    ultimately show ?thesis by simp
  qed
  then have d1: "distinct (?ids db1)" and m1: "?m \<in> set (?ids db1)"
    and x1: "\<exists>new_ex. expenses db1 = expenses db @ new_ex \<and> length new_ex \<le> 1"
    by simp_all
  from m1 same have m2: "messageId p2 \<in> set (?ids db1)" by simp
  from run_duplicate_messageId [OF p2 m2 a2] run2
  have r2: "r2 = Inl (D1Error (UNIQUE_constraint_failed ''processed_emails.message_id''))"
    and db2: "db2 = db1" by simp_all
  have c: "length (filter (\<lambda>row. pe_message_id row = ?m) (processed_emails db1)) = 1"
    by (rule length_filter_distinct [OF d1 m1])
  from attempt_from_always_D1Error
    [of "recordInitialEmailProcessing e2 p2" db1 _ "retries_limit defaultConfig" 0,
     OF recordInitialEmailProcessing_duplicate [OF m2 a2]]
  have s: "step_do defaultConfig (\<lambda>k. recordInitialEmailProcessing e2 p2) db1
      = (Inl (D1Error (UNIQUE_constraint_failed ''processed_emails.message_id'')), db1, 2)"
    by (simp add: step_do_def defaultConfig_def)
  from c x1 r2 db2 s show ?thesis by simp
qed

theorem run_twice_same_messageId_witness:
  "run example_env [] example_db = (Inr (), example_db_after_run)
   \<and> length (filter (\<lambda>row. pe_message_id row = messageId example_email)
        (processed_emails (snd (run example_env [] example_db_after_run)))) = 1
   \<and> fst (run example_env [] example_db_after_run)
       = Inl (D1Error (UNIQUE_constraint_failed ''processed_emails.message_id''))
   \<and> snd (run example_env [] example_db_after_run) = example_db_after_run"
proof -
  have p: "parse_email example_env [] = Some example_email" by (simp add: example_env_def)
  have a: "from_address example_email = Some ''billing@example.org''"
    by (simp add: example_email_def)
  have d: "distinct (map pe_message_id (processed_emails example_db))"
    by (simp add: example_db_def)
  have r2: "run example_env [] example_db_after_run
      = (fst (run example_env [] example_db_after_run),
         snd (run example_env [] example_db_after_run))" by simp
  note t = run_twice_same_messageId [OF p p refl a a d example_run r2]
  show ?thesis
  proof (intro conjI)
    show "run example_env [] example_db = (Inr (), example_db_after_run)"
      by (rule example_run)
    show "length (filter (\<lambda>row. pe_message_id row = messageId example_email)
        (processed_emails (snd (run example_env [] example_db_after_run)))) = 1"
      by (rule t [THEN conjunct1])
    show "fst (run example_env [] example_db_after_run)
       = Inl (D1Error (UNIQUE_constraint_failed ''processed_emails.message_id''))"
      by (rule t [THEN conjunct2, THEN conjunct2, THEN conjunct1])
    show "snd (run example_env [] example_db_after_run) = example_db_after_run"
      by (rule t [THEN conjunct2, THEN conjunct2, THEN conjunct2, THEN conjunct1])
  qed
qed

text \<open>
  The second run of the example does not continue after the duplicate: it ends with the
  constraint failure of step 2.
\<close>

theorem second_run_aborts_on_duplicate_messageId_counterexample:
  "run example_env [] example_db = (Inr (), example_db_after_run)
   \<and> run example_env [] example_db_after_run
     = (Inl (D1Error (UNIQUE_constraint_failed ''processed_emails.message_id'')),
        example_db_after_run)"
proof -
  have p: "parse_email example_env [] = Some example_email" by (simp add: example_env_def)
  have m: "messageId example_email
      \<in> set (map pe_message_id (processed_emails example_db_after_run))"
    by (simp add: example_email_def example_db_after_run_def example_ledger_row_def)
  have a: "from_address example_email = Some ''billing@example.org''"
    by (simp add: example_email_def)
  from example_run run_duplicate_messageId [OF p m a] show ?thesis by simp
qed

text \<open>
  C2. The text of a PDF attachment goes through \<^verbatim>\<open>.replace\<close>, which replaces the first
  occurrence only: for the PDF text ``Invoice for Bob, paid by Bob'' and the configured
  name ``Bob'', the content sent to the model still contains the name. The same text as a
  message body goes through \<^verbatim>\<open>.replaceAll\<close> and contains it no more.
\<close>

theorem pdf_text_redacts_first_occurrence_only:
  "extract_text_for_AI example_env (example_email\<lparr>attachments := [example_pdf]\<rparr>)
     = Inr \<lparr>contentForAi = ''Invoice for Payee Name, paid by Bob'', type = ''attachment''\<rparr>
   \<and> includes_js ''Invoice for Payee Name, paid by Bob'' (YOUR_NAME example_env)
   \<and> extract_text_for_AI example_env example_email
     = Inr \<lparr>contentForAi = ''Invoice for Payee Name, paid by Payee Name'', type = ''body''\<rparr>
   \<and> \<not> includes_js ''Invoice for Payee Name, paid by Payee Name'' (YOUR_NAME example_env)"
  by (simp add: extract_text_for_AI_def example_env_def example_email_def example_pdf_def
      redact_replace_def redact_replaceAll_def or_else_empty_def)

text \<open>
  C3. An email whose only attachment is not a PDF and whose plain-text body is not empty
  yields empty content with source \<^verbatim>\<open>attachment\<close>: the body is not used.
\<close>

theorem attachments_without_pdf_hide_the_body:
  "extract_text_for_AI example_env (example_email\<lparr>attachments := [example_png]\<rparr>)
     = Inr \<lparr>contentForAi = [], type = ''attachment''\<rparr>
   \<and> body_text (example_email\<lparr>attachments := [example_png]\<rparr>) = Some ''Invoice for Bob, paid by Bob''"
  by (simp add: extract_text_for_AI_def example_env_def example_email_def example_png_def)

text \<open>
  C4, as the code has it. When the ledger insert and the text extraction succeed and
  every response of the model is an object without \<^verbatim>\<open>currencyCode\<close>, the validation in
  step 4 fails at every attempt with a \<^verbatim>\<open>ZodError\<close> that has an issue with the path
  \<^verbatim>\<open>currencyCode\<close>, the run ends with an error, no expense row is inserted, and the
  ledger entry of the run stays as it was inserted, with status \<^verbatim>\<open>pending\<close>: nothing
  sets it to \<^verbatim>\<open>failed\<close>.
\<close>

theorem run_with_response_missing_currencyCode:
  assumes p: "parse_email e email = Some p"
    and a: "from_address p = Some addr"
    and fresh: "messageId p \<notin> set (map pe_message_id (processed_emails db))"
    and x: "extract_text_for_AI e p = Inr c"
    and ai: "\<forall>k pr. \<exists>kvs. AI_run e k pr response_format = Some (JObj kvs)
               \<and> map_of kvs ''currencyCode'' = None"
    and run: "run e email db = (r, db')"
  shows "(\<forall>k. \<exists>issues.
            send_to_AI_for_expense_parsing e (extract_text_for_AI e p) k = Inl (ZodError issues)
            \<and> ZodIssue invalid_type [''currencyCode''] ''Required'' \<in> set issues)
     \<and> (\<exists>err. r = Inl err)
     \<and> expenses db' = expenses db
     \<and> (\<exists>row. processed_emails db' = processed_emails db @ [row]
           \<and> pe_message_id row = messageId p
           \<and> pe_status row = ''pending'')"
proof -
  have send: "\<exists>issues. send_to_AI_for_expense_parsing e (extract_text_for_AI e p) j
        = Inl (ZodError issues)
      \<and> ZodIssue invalid_type [''currencyCode''] ''Required'' \<in> set issues" for j
  proof -
    from ai obtain kvs where
      k: "AI_run e j (prompt (contentForAi c)) response_format = Some (JObj kvs)"
        "map_of kvs ''currencyCode'' = None"
      by blast
    from parse_missing_currencyCode [OF k(2)] obtain issues where
      "ExpenseSchema_parse (JObj kvs) = Inl issues"
      "ZodIssue invalid_type [''currencyCode''] ''Required'' \<in> set issues"
      by blast
    with k(1) x show ?thesis by (simp add: send_to_AI_for_expense_parsing_def)
  qed
  have rest: "(\<exists>err. r = Inl err) \<and> expenses db' = expenses db
     \<and> (\<exists>row. processed_emails db' = processed_emails db @ [row]
           \<and> pe_message_id row = messageId p \<and> pe_status row = ''pending'')"
    using run
  proof (cases rule: run_cases)
    case parse_failed
    with p show ?thesis by simp
  next
    case (record_failed p' err)
    with p a fresh show ?thesis
      by (simp add: recordInitialEmailProcessing_def INSERT_INTO_processed_emails_def Let_def)
  next
    case (recorded p' rec db2)
    with p have s: "recordInitialEmailProcessing e p db = (Inr rec, db2)"
      and rest: "run_from_extract e p rec db2 = (r, db')" by simp_all
    from recordInitialEmailProcessing_Inr [OF s] obtain row where
      row: "processed_emails db2 = processed_emails db @ [row]" "pe_message_id row = messageId p"
        "pe_status row = ''pending''" "expenses db2 = expenses db"
      by blast
    from rest show ?thesis
    proof (cases rule: run_from_extract_cases)
      case (insert_failed j err)
      with row show ?thesis by blast
    next
      case (finalized j res5 db5 res6)
      from send [of j] obtain issues where
        "send_to_AI_for_expense_parsing e (extract_text_for_AI e p) j = Inl (ZodError issues)"
        by blast
      with finalized(2) show ?thesis by (simp add: insertExpenseRecord_rethrows)
    qed
  qed
  from send rest show ?thesis by blast
qed

theorem run_with_response_missing_currencyCode_witness:
  "(\<forall>k. \<exists>issues.
      send_to_AI_for_expense_parsing example_env_no_currencyCode
        (extract_text_for_AI example_env_no_currencyCode example_email) k = Inl (ZodError issues)
      \<and> ZodIssue invalid_type [''currencyCode''] ''Required'' \<in> set issues)
   \<and> (\<exists>err. fst (run example_env_no_currencyCode [] example_db) = Inl err)
   \<and> expenses (snd (run example_env_no_currencyCode [] example_db)) = expenses example_db
   \<and> (\<exists>row. processed_emails (snd (run example_env_no_currencyCode [] example_db))
         = processed_emails example_db @ [row]
       \<and> pe_message_id row = messageId example_email
       \<and> pe_status row = ''pending'')"
proof -
  have p: "parse_email example_env_no_currencyCode [] = Some example_email"
    by (simp add: example_env_no_currencyCode_def example_env_def)
  have a: "from_address example_email = Some ''billing@example.org''"
    by (simp add: example_email_def)
  have fresh: "messageId example_email \<notin> set (map pe_message_id (processed_emails example_db))"
    by (simp add: example_db_def)
  have x: "extract_text_for_AI example_env_no_currencyCode example_email
      = Inr \<lparr>contentForAi = ''Invoice for Payee Name, paid by Payee Name'', type = ''body''\<rparr>"
    by (simp add: extract_text_for_AI_def example_env_no_currencyCode_def example_env_def
        example_email_def redact_replaceAll_def or_else_empty_def)
  have ai: "\<forall>k pr. \<exists>kvs. AI_run example_env_no_currencyCode k pr response_format
        = Some (JObj kvs) \<and> map_of kvs ''currencyCode'' = None"
    by (simp add: example_env_no_currencyCode_def example_response_no_currencyCode_def)
  have r: "run example_env_no_currencyCode [] example_db
      = (fst (run example_env_no_currencyCode [] example_db),
         snd (run example_env_no_currencyCode [] example_db))" by simp
  show ?thesis by (rule run_with_response_missing_currencyCode [OF p a fresh x ai r])
qed

text \<open>
  After the run of the example with a response without \<^verbatim>\<open>currencyCode\<close>, the database
  holds the ledger entry of the run with status \<^verbatim>\<open>pending\<close>, not \<^verbatim>\<open>failed\<close>, and no
  expense.
\<close>

theorem ledger_status_stays_pending_counterexample:
  "snd (run example_env_no_currencyCode [] example_db) = example_db_with_ledger_row
   \<and> map pe_status (processed_emails example_db_with_ledger_row) = [''pending'']
   \<and> ''pending'' \<noteq> ''failed''"
  by (simp add: run_example_defs example_env_no_currencyCode_def
      example_response_no_currencyCode_def invalid_type_issue_def
      example_db_with_ledger_row_def)

text \<open>
  C5, as the code has it. \<^verbatim>\<open>ExpenseSchema\<close> checks that \<^verbatim>\<open>category\<close> is a string and
  nothing more. Validation succeeds only when the field is a string. An output that is an
  object whose \<^verbatim>\<open>category\<close> is absent or not a string is rejected with an issue that names
  the field, and an output that is not an object with one issue at the empty path. A
  response that passes still passes with any other string as its category. The eight
  labels are the enumeration of \<^verbatim>\<open>category\<close> in the response format that step 4 passes
  to the model call with the prompt. At storage, the foreign key of
  \<^verbatim>\<open>expenses.category\<close> decides the insert of step 5 for a row that is acceptable
  otherwise: it succeeds for a category that is a row of \<^verbatim>\<open>categories\<close>, compared
  without case, and fails with a foreign key violation for any other, leaving the
  database unchanged; whatever else holds, no expense row is inserted for such a category.
\<close>

theorem category_validated_as_string:
  "(ExpenseSchema_parse response = Inr ef \<longrightarrow>
      get_prop response ''category'' = JStr (category ef))
   \<and> ((\<forall>c. get_prop (JObj kvs) ''category'' \<noteq> JStr c) \<longrightarrow>
      (\<exists>issues. ExpenseSchema_parse (JObj kvs) = Inl issues
         \<and> (\<exists>i \<in> set issues. path i = [''category''])))
   \<and> ((\<forall>kvs. v \<noteq> JObj kvs) \<longrightarrow>
      ExpenseSchema_parse v = Inl [invalid_type_issue ''object'' [] v])
   \<and> (ExpenseSchema_parse (JObj kvs) = Inr ef \<longrightarrow>
      ExpenseSchema_parse (JObj ((''category'', JStr c) # kvs)) = Inr (ef\<lparr>category := c\<rparr>))
   \<and> get_prop (get_prop (get_prop (get_prop response_format ''json_schema'') ''properties'')
         ''category'') ''enum''
       = JArr (map JStr validCategories)
   \<and> send_to_AI_for_expense_parsing e (Inr content') k
       = (case AI_run e k (prompt (contentForAi content')) response_format of
            None \<Rightarrow> Inl (Error ''AI'')
          | Some answer \<Rightarrow>
              (case ExpenseSchema_parse answer of
                 Inl issues \<Rightarrow> Inl (ZodError issues)
               | Inr parsed \<Rightarrow> Inr parsed))
   \<and> (emailRecordId rec = Some i \<and> i \<noteq> 0 \<and> i \<in> set (map pe_id (processed_emails db))
        \<and> description aiData = Some d \<and> amountValue aiData > 0
        \<and> length (currencyCode aiData) = 3
        \<and> list_ex (nocase_eq (category aiData)) (categories db) \<longrightarrow>
      (\<exists>res db'. insertExpenseRecord e (Inr aiData) rec db = (Inr res, db')))
   \<and> (emailRecordId rec = Some i \<and> i \<noteq> 0 \<and> i \<in> set (map pe_id (processed_emails db))
        \<and> description aiData = Some d \<and> amountValue aiData > 0
        \<and> length (currencyCode aiData) = 3
        \<and> \<not> list_ex (nocase_eq (category aiData)) (categories db) \<longrightarrow>
      insertExpenseRecord e (Inr aiData) rec db
        = (Inl (D1Error FOREIGN_KEY_constraint_failed), db))
   \<and> (\<not> list_ex (nocase_eq (category aiData)) (categories db) \<longrightarrow>
      (\<exists>err. insertExpenseRecord e (Inr aiData) rec db = (Inl err, db)))"
proof (intro conjI impI)
  assume "ExpenseSchema_parse response = Inr ef"
  then show "get_prop response ''category'' = JStr (category ef)"
    by (simp add: ExpenseSchema_parse_Inr_iff z_string_Inr)
next
  assume n: "\<forall>c. get_prop (JObj kvs) ''category'' \<noteq> JStr c"
  let ?v = "get_prop (JObj kvs) ''category''"
  have z: "z_string [''category''] ?v = Inl [invalid_type_issue ''string'' [''category''] ?v]"
    by (rule z_string_not_string [OF n])
  then obtain issues where i: "ExpenseSchema_parse (JObj kvs) = Inl issues"
    using ExpenseSchema_parse_Inl_if [of kvs] by blast
  from ExpenseSchema_parse_issues [OF i] z
  have "invalid_type_issue ''string'' [''category''] ?v \<in> set issues" by simp
  then have "\<exists>i \<in> set issues. path i = [''category'']"
    by (rule bexI [rotated]) simp
  with i show "\<exists>issues. ExpenseSchema_parse (JObj kvs) = Inl issues
      \<and> (\<exists>i \<in> set issues. path i = [''category''])" by blast
next
  assume "\<forall>kvs. v \<noteq> JObj kvs"
  then show "ExpenseSchema_parse v = Inl [invalid_type_issue ''object'' [] v]"
    by (cases v) (simp_all add: ExpenseSchema_parse_def)
next
  assume "ExpenseSchema_parse (JObj kvs) = Inr ef"
  then show "ExpenseSchema_parse (JObj ((''category'', JStr c) # kvs)) = Inr (ef\<lparr>category := c\<rparr>)"
    by (simp add: ExpenseSchema_parse_Inr_iff z_string_Inr)
next
  show "get_prop (get_prop (get_prop (get_prop response_format ''json_schema'') ''properties'')
         ''category'') ''enum''
       = JArr (map JStr validCategories)"
    by (simp add: response_format_def)
next
  show "send_to_AI_for_expense_parsing e (Inr content') k
       = (case AI_run e k (prompt (contentForAi content')) response_format of
            None \<Rightarrow> Inl (Error ''AI'')
          | Some answer \<Rightarrow>
              (case ExpenseSchema_parse answer of
                 Inl issues \<Rightarrow> Inl (ZodError issues)
               | Inr parsed \<Rightarrow> Inr parsed))"
    by (simp add: send_to_AI_for_expense_parsing_def)
next
  assume "emailRecordId rec = Some i \<and> i \<noteq> 0 \<and> i \<in> set (map pe_id (processed_emails db))
        \<and> description aiData = Some d \<and> amountValue aiData > 0
        \<and> length (currencyCode aiData) = 3
        \<and> list_ex (nocase_eq (category aiData)) (categories db)"
  then show "\<exists>res db'. insertExpenseRecord e (Inr aiData) rec db = (Inr res, db')"
    by (simp add: insertExpenseRecord_def INSERT_INTO_expenses_def missing_def Let_def
        status_check_def generated_status_def)
next
  assume "emailRecordId rec = Some i \<and> i \<noteq> 0 \<and> i \<in> set (map pe_id (processed_emails db))
        \<and> description aiData = Some d \<and> amountValue aiData > 0
        \<and> length (currencyCode aiData) = 3
        \<and> \<not> list_ex (nocase_eq (category aiData)) (categories db)"
  then show "insertExpenseRecord e (Inr aiData) rec db
        = (Inl (D1Error FOREIGN_KEY_constraint_failed), db)"
    by (simp add: insertExpenseRecord_def INSERT_INTO_expenses_def missing_def Let_def
        status_check_def generated_status_def)
next
  assume "\<not> list_ex (nocase_eq (category aiData)) (categories db)"
  then show "\<exists>err. insertExpenseRecord e (Inr aiData) rec db = (Inl err, db)"
    by (rule insertExpenseRecord_unknown_category)
qed

theorem category_validated_as_string_witness:
  "ExpenseSchema_parse example_response = Inr example_fields
   \<and> get_prop example_response ''category'' = JStr ''Other''
   \<and> (\<exists>issues. ExpenseSchema_parse (JObj [(''category'', JNum 7)]) = Inl issues
         \<and> (\<exists>i. i \<in> set issues \<and> path i = [''category'']))
   \<and> ExpenseSchema_parse JNull = Inl [ZodIssue invalid_type [] ''Expected object, received null'']
   \<and> ExpenseSchema_parse (JObj ((''category'', JStr ''Groceries'') #
        [(''vendor'', JStr ''Acme''), (''expenseDate'', JStr ''31-12-2024''),
         (''amountValue'', JNum 42), (''currencyCode'', JStr ''usd''),
         (''category'', JStr ''Other''), (''description'', JStr ''Hosting'')]))
       = Inr (example_fields\<lparr>category := ''Groceries''\<rparr>)
   \<and> get_prop (get_prop (get_prop (get_prop response_format ''json_schema'') ''properties'')
         ''category'') ''enum''
       = JArr [JStr ''Meals'', JStr ''Travel'', JStr ''Office Supplies'', JStr ''Software'',
               JStr ''Hardware'', JStr ''Training'', JStr ''Telecom'', JStr ''Other'']
   \<and> (\<exists>res db'. insertExpenseRecord example_env (Inr example_fields)
         \<lparr>emailRecordId = Some 1, rec_success = True\<rparr> example_db_with_ledger_row
           = (Inr res, db'))
   \<and> insertExpenseRecord example_env (Inr (example_fields\<lparr>category := ''Groceries''\<rparr>))
         \<lparr>emailRecordId = Some 1, rec_success = True\<rparr> example_db_with_ledger_row
       = (Inl (D1Error FOREIGN_KEY_constraint_failed), example_db_with_ledger_row)"
proof -
  let ?rec = "\<lparr>emailRecordId = Some 1, rec_success = True\<rparr>"
  let ?kvs = "[(''vendor'', JStr ''Acme''), (''expenseDate'', JStr ''31-12-2024''),
         (''amountValue'', JNum 42), (''currencyCode'', JStr ''usd''),
         (''category'', JStr ''Other''), (''description'', JStr ''Hosting'')]"
  have p: "ExpenseSchema_parse example_response = Inr example_fields"
    by (simp add: parse_example_defs example_response_def)
  have n: "\<forall>c. get_prop (JObj [(''category'', JNum 7)]) ''category'' \<noteq> JStr c" by simp
  have o: "\<forall>kvs. JNull \<noteq> JObj kvs" by simp
  have side: "emailRecordId ?rec = Some 1 \<and> (1::int) \<noteq> 0
      \<and> 1 \<in> set (map pe_id (processed_emails example_db_with_ledger_row))"
    by (simp add: example_db_with_ledger_row_def example_ledger_row_def)
  have other: "description example_fields = Some ''Hosting'' \<and> amountValue example_fields > 0
      \<and> length (currencyCode example_fields) = 3
      \<and> list_ex (nocase_eq (category example_fields)) (categories example_db_with_ledger_row)"
    by (simp add: example_fields_def example_db_with_ledger_row_def validCategories_def
        nocase_eq_def toUpperCase_def upper_char_def)
  have groc: "description (example_fields\<lparr>category := ''Groceries''\<rparr>) = Some ''Hosting''
      \<and> amountValue (example_fields\<lparr>category := ''Groceries''\<rparr>) > 0
      \<and> length (currencyCode (example_fields\<lparr>category := ''Groceries''\<rparr>)) = 3
      \<and> \<not> list_ex (nocase_eq (category (example_fields\<lparr>category := ''Groceries''\<rparr>)))
            (categories example_db_with_ledger_row)"
    by (simp add: example_fields_def example_db_with_ledger_row_def validCategories_def
        nocase_eq_def toUpperCase_def upper_char_def)
  note t = category_validated_as_string [where response = example_response
      and ef = example_fields and kvs = "[(''category'', JNum 7)]" and v = JNull
      and rec = ?rec and i = 1 and db = example_db_with_ledger_row
      and aiData = example_fields and d = "''Hosting''" and e = example_env]
  note u = category_validated_as_string [where response = example_response
      and ef = example_fields and c = "''Groceries''" and kvs = ?kvs
      and rec = ?rec and i = 1 and db = example_db_with_ledger_row
      and aiData = "example_fields\<lparr>category := ''Groceries''\<rparr>" and d = "''Hosting''"
      and e = example_env]
  from t p have "get_prop example_response ''category'' = JStr (category example_fields)"
    by blast
  then have a: "get_prop example_response ''category'' = JStr ''Other''"
    by (simp add: example_fields_def)
  from t n have b: "\<exists>issues. ExpenseSchema_parse (JObj [(''category'', JNum 7)]) = Inl issues
         \<and> (\<exists>i. i \<in> set issues \<and> path i = [''category''])" by blast
  from t o have "ExpenseSchema_parse JNull = Inl [invalid_type_issue ''object'' [] JNull]"
    by blast
  then have b2: "ExpenseSchema_parse JNull
      = Inl [ZodIssue invalid_type [] ''Expected object, received null'']"
    by (simp add: invalid_type_issue_def)
  from u p have c: "ExpenseSchema_parse (JObj ((''category'', JStr ''Groceries'') # ?kvs))
       = Inr (example_fields\<lparr>category := ''Groceries''\<rparr>)"
    unfolding example_response_def by blast
  from t have "get_prop (get_prop (get_prop (get_prop response_format ''json_schema'')
      ''properties'') ''category'') ''enum'' = JArr (map JStr validCategories)"
    by blast
  then have en: "get_prop (get_prop (get_prop (get_prop response_format ''json_schema'')
      ''properties'') ''category'') ''enum''
       = JArr [JStr ''Meals'', JStr ''Travel'', JStr ''Office Supplies'', JStr ''Software'',
               JStr ''Hardware'', JStr ''Training'', JStr ''Telecom'', JStr ''Other'']"
    by (simp add: validCategories_def)
  from t side other have ok: "\<exists>res db'. insertExpenseRecord example_env (Inr example_fields)
      ?rec example_db_with_ledger_row = (Inr res, db')"
    by blast
  from u side groc have fk: "insertExpenseRecord example_env
      (Inr (example_fields\<lparr>category := ''Groceries''\<rparr>)) ?rec example_db_with_ledger_row
       = (Inl (D1Error FOREIGN_KEY_constraint_failed), example_db_with_ledger_row)"
    by blast
  show ?thesis
  proof (intro conjI)
    show "ExpenseSchema_parse example_response = Inr example_fields" by (rule p)
    show "get_prop example_response ''category'' = JStr ''Other''" by (rule a)
    show "\<exists>issues. ExpenseSchema_parse (JObj [(''category'', JNum 7)]) = Inl issues
         \<and> (\<exists>i. i \<in> set issues \<and> path i = [''category''])" by (rule b)
    show "ExpenseSchema_parse JNull
      = Inl [ZodIssue invalid_type [] ''Expected object, received null'']" by (rule b2)
    show "ExpenseSchema_parse (JObj ((''category'', JStr ''Groceries'') # ?kvs))
       = Inr (example_fields\<lparr>category := ''Groceries''\<rparr>)" by (rule c)
    show "get_prop (get_prop (get_prop (get_prop response_format ''json_schema'')
      ''properties'') ''category'') ''enum''
       = JArr [JStr ''Meals'', JStr ''Travel'', JStr ''Office Supplies'', JStr ''Software'',
               JStr ''Hardware'', JStr ''Training'', JStr ''Telecom'', JStr ''Other'']"
      by (rule en)
    show "\<exists>res db'. insertExpenseRecord example_env (Inr example_fields)
      ?rec example_db_with_ledger_row = (Inr res, db')" by (rule ok)
    show "insertExpenseRecord example_env
      (Inr (example_fields\<lparr>category := ''Groceries''\<rparr>)) ?rec example_db_with_ledger_row
       = (Inl (D1Error FOREIGN_KEY_constraint_failed), example_db_with_ledger_row)"
      by (rule fk)
  qed
qed

text \<open>
  A response with the category ``Groceries'', which is none of the eight labels, passes
  the validation.
\<close>

theorem category_not_checked_against_validCategories_counterexample:
  "ExpenseSchema_parse example_response_Groceries = Inr (example_fields\<lparr>category := ''Groceries''\<rparr>)
   \<and> ''Groceries'' \<notin> set validCategories"
  by (simp add: parse_example_defs example_response_Groceries_def validCategories_def)

text \<open>
  C6. A response without \<^verbatim>\<open>description\<close> passes the validation with the field
  \<^verbatim>\<open>undefined\<close>, not the empty string; step 5 then binds \<^verbatim>\<open>undefined\<close>, and the insert
  fails with a type error of D1.
\<close>

theorem absent_description_is_undefined:
  "ExpenseSchema_parse example_response_no_description = Inr (example_fields\<lparr>description := None\<rparr>)
   \<and> description (example_fields\<lparr>description := None\<rparr>) \<noteq> Some []
   \<and> insertExpenseRecord example_env (Inr (example_fields\<lparr>description := None\<rparr>))
        \<lparr>emailRecordId = Some 1, rec_success = True\<rparr>
        (example_db\<lparr>processed_emails := [example_ledger_row], seq_processed_emails := 1\<rparr>)
      = (Inl (D1Error D1_TYPE_ERROR),
         example_db\<lparr>processed_emails := [example_ledger_row], seq_processed_emails := 1\<rparr>)"
  by (simp add: parse_example_defs example_response_no_description_def
      insertExpenseRecord_def missing_def INSERT_INTO_expenses_def)

text \<open>
  C7. Every string that the validation of \<^verbatim>\<open>expenseDate\<close> accepts (DD-MM-YYYY) survives
  the reformatting to YYYY-MM-DD of step 5 followed by the inverse reformatting: the
  result is the original string. The reformatting of step 5 is its own inverse on these
  strings.
\<close>

theorem expenseDate_round_trip:
  assumes "z_expenseDate p v = Inr s"
  shows "restoredDate (formattedDate s) = s \<and> formattedDate (formattedDate s) = s"
proof -
  from z_expenseDate_Inr [OF assms] have m: "matches date_regex s" by simp
  from matches_date_regex_shape [OF m] obtain d mo y where
    s: "s = d @ CHR ''-'' # mo @ CHR ''-'' # y"
    and n: "CHR ''-'' \<notin> set d" "CHR ''-'' \<notin> set mo" "CHR ''-'' \<notin> set y"
    by blast
  have "restoredDate (formattedDate s) = s"
    unfolding s by (simp add: formattedDate_parts [OF n] restoredDate_parts [OF n])
  with formattedDate_involution [OF m] show ?thesis by simp
qed

theorem expenseDate_round_trip_witness:
  "z_expenseDate [''expenseDate''] (JStr ''31-12-2024'') = Inr ''31-12-2024''
   \<and> formattedDate ''31-12-2024'' = ''2024-12-31''
   \<and> restoredDate (formattedDate ''31-12-2024'') = ''31-12-2024''"
proof -
  have m: "z_expenseDate [''expenseDate''] (JStr ''31-12-2024'') = Inr ''31-12-2024''"
    by (simp add: z_expenseDate_def z_string_def date_regex_def)
  have f: "formattedDate ''31-12-2024'' = ''2024-12-31''"
    by (simp add: formattedDate_def template_elem_def)
  from m f expenseDate_round_trip [OF m] show ?thesis by simp
qed

text \<open>
  C8, as the code has it. When step 5 runs with the result of the model at hand and the
  id of the ledger entry is missing, every attempt throws a plain \<^verbatim>\<open>Error\<close> and leaves
  the database as it is; the engine treats it as any other failing step, so the callback
  runs once and then \<^verbatim>\<open>retries.limit\<close> more times before the step fails with that
  error. A callback that always throws another plain error is attempted as often. The
  failed step ends the run with an error and an unchanged database.
\<close>

theorem insertExpenseRecord_missing_id_uses_retry_budget:
  assumes "missing (emailRecordId emailDbRecord)"
  shows "step_do config (\<lambda>k. insertExpenseRecord e (Inr aiData) emailDbRecord) db
           = (Inl (Error ''Failed to get emailRecordId for expense insertion.''), db,
              Suc (retries_limit config))
         \<and> step_do config (\<lambda>k s. (Inl (Error msg) :: error + d1_result, s)) db
           = (Inl (Error msg), db, Suc (retries_limit config))
         \<and> (\<exists>err. run_from_extract e p emailDbRecord db = (Inl err, db))"
proof -
  have "insertExpenseRecord e (Inr aiData) emailDbRecord db
      = (Inl (Error ''Failed to get emailRecordId for expense insertion.''), db)"
    using assms by (simp add: insertExpenseRecord_def)
  from attempt_from_always_Error
    [of "insertExpenseRecord e (Inr aiData) emailDbRecord" db _ "retries_limit config" 0, OF this]
  have a: "step_do config (\<lambda>k. insertExpenseRecord e (Inr aiData) emailDbRecord) db
           = (Inl (Error ''Failed to get emailRecordId for expense insertion.''), db,
              Suc (retries_limit config))"
    by (simp add: step_do_def)
  have "(\<lambda>s. (Inl (Error msg) :: error + d1_result, s)) db = (Inl (Error msg), db)" by simp
  from attempt_from_always_Error
    [of "\<lambda>s. (Inl (Error msg) :: error + d1_result, s)" db msg "retries_limit config" 0, OF this]
  have b: "step_do config (\<lambda>k s. (Inl (Error msg) :: error + d1_result, s)) db
           = (Inl (Error msg), db, Suc (retries_limit config))"
    by (simp add: step_do_def)
  from a b run_from_extract_missing_id [OF assms, of e p db] show ?thesis by simp
qed

theorem insertExpenseRecord_missing_id_uses_retry_budget_witness:
  "missing (emailRecordId \<lparr>emailRecordId = Some 0, rec_success = True\<rparr>)
   \<and> step_do defaultConfig
       (\<lambda>k. insertExpenseRecord example_env (Inr example_fields)
               \<lparr>emailRecordId = Some 0, rec_success = True\<rparr>) example_db
     = (Inl (Error ''Failed to get emailRecordId for expense insertion.''), example_db, 2)
   \<and> step_do defaultConfig (\<lambda>k s. (Inl (Error ''transient'') :: error + d1_result, s)) example_db
     = (Inl (Error ''transient''), example_db, 2)"
proof -
  have m: "missing (emailRecordId \<lparr>emailRecordId = Some 0, rec_success = True\<rparr>)"
    by (simp add: missing_def)
  from m insertExpenseRecord_missing_id_uses_retry_budget
    [OF m, of defaultConfig example_env example_fields example_db "''transient''" example_email]
  show ?thesis by (simp add: defaultConfig_def)
qed

text \<open>
  With the configuration of the workflow, the step with a missing id is attempted twice:
  it is retried.
\<close>

theorem insertExpenseRecord_missing_id_is_retried_counterexample:
  "step_do defaultConfig
     (\<lambda>k. insertExpenseRecord example_env (Inr example_fields)
             \<lparr>emailRecordId = None, rec_success = True\<rparr>) example_db
   = (Inl (Error ''Failed to get emailRecordId for expense insertion.''), example_db, 2)"
  by (simp add: step_do_def defaultConfig_def insertExpenseRecord_def missing_def)

text \<open>
  C9. When step 6 runs and the id of the ledger entry is missing, its callback returns
  an unsuccessful result with the error \<^verbatim>\<open>Missing emailRecordId\<close>, throws nothing and
  changes nothing, and the run completes. When the id is present, the callback succeeds,
  the run completes, every ledger entry with that id has status \<^verbatim>\<open>processed\<close> and the
  current time as \<^verbatim>\<open>processed_at\<close>, and no other row changes.
\<close>

theorem finalizeEmailProcessingStatus_best_effort:
  "(missing (emailRecordId emailDbRecord) \<longrightarrow>
      finalizeEmailProcessingStatus e emailDbRecord db
        = (Inr \<lparr>fin_success = False, fin_changes = None,
                fin_error = Some ''Missing emailRecordId''\<rparr>, db)
      \<and> run_finalize e emailDbRecord db = (Inr (), db))
   \<and> (emailRecordId emailDbRecord = Some i \<and> i \<noteq> 0 \<longrightarrow>
      (\<exists>res db'. finalizeEmailProcessingStatus e emailDbRecord db = (Inr res, db')
         \<and> fin_success res
         \<and> run_finalize e emailDbRecord db = (Inr (), db')
         \<and> map pe_id (processed_emails db') = map pe_id (processed_emails db)
         \<and> (\<forall>row \<in> set (processed_emails db'). pe_id row = i \<longrightarrow>
               pe_status row = ''processed''
               \<and> pe_processed_at row = CURRENT_TIMESTAMP e ''finalizeEmailProcessingStatus'')
         \<and> (\<forall>row \<in> set (processed_emails db'). pe_id row \<noteq> i \<longrightarrow>
               row \<in> set (processed_emails db))
         \<and> expenses db' = expenses db))"
proof (intro conjI impI)
  assume m: "missing (emailRecordId emailDbRecord)"
  then show f: "finalizeEmailProcessingStatus e emailDbRecord db
        = (Inr \<lparr>fin_success = False, fin_changes = None,
                fin_error = Some ''Missing emailRecordId''\<rparr>, db)"
    by (simp add: finalizeEmailProcessingStatus_def)
  from run_finalize_eq [of e emailDbRecord db] f
  show "run_finalize e emailDbRecord db = (Inr (), db)" by simp
next
  assume i: "emailRecordId emailDbRecord = Some i \<and> i \<noteq> 0"
  define now where "now = CURRENT_TIMESTAMP e ''finalizeEmailProcessingStatus''"
  define db' where "db' = db\<lparr>processed_emails :=
      map (\<lambda>r. if pe_id r = i then r\<lparr>pe_status := ''processed'', pe_processed_at := now\<rparr> else r)
          (processed_emails db)\<rparr>"
  define res where "res = \<lparr>fin_success = True,
      fin_changes = Some (int (length (filter (\<lambda>r. pe_id r = i) (processed_emails db)))),
      fin_error = None\<rparr>"
  have f: "finalizeEmailProcessingStatus e emailDbRecord db = (Inr res, db')"
    using i by (simp add: finalizeEmailProcessingStatus_def UPDATE_processed_emails_def
        missing_def db'_def res_def now_def)
  from run_finalize_eq [of e emailDbRecord db] f
  have r: "run_finalize e emailDbRecord db = (Inr (), db')" by simp
  have ids: "map pe_id (processed_emails db') = map pe_id (processed_emails db)"
    by (simp add: db'_def comp_def)
  have rows: "processed_emails db' =
      map (\<lambda>r. if pe_id r = i then r\<lparr>pe_status := ''processed'', pe_processed_at := now\<rparr> else r)
          (processed_emails db)"
    by (simp add: db'_def)
  have upd: "\<forall>row \<in> set (processed_emails db'). pe_id row = i \<longrightarrow>
      pe_status row = ''processed'' \<and> pe_processed_at row = now"
  proof (intro ballI impI)
    fix row assume "row \<in> set (processed_emails db')" "pe_id row = i"
    with set_map_if_cases [of row "\<lambda>r. pe_id r = i" _ "processed_emails db"] rows
    obtain r where "row = r\<lparr>pe_status := ''processed'', pe_processed_at := now\<rparr>"
      by auto
    then show "pe_status row = ''processed'' \<and> pe_processed_at row = now" by simp
  qed
  have oth: "\<forall>row \<in> set (processed_emails db'). pe_id row \<noteq> i \<longrightarrow>
      row \<in> set (processed_emails db)"
  proof (intro ballI impI)
    fix row assume "row \<in> set (processed_emails db')" "pe_id row \<noteq> i"
    with set_map_if_cases [of row "\<lambda>r. pe_id r = i" _ "processed_emails db"] rows
    show "row \<in> set (processed_emails db)" by auto
  qed
  have ex: "expenses db' = expenses db" by (simp add: db'_def)
  have s: "fin_success res" by (simp add: res_def)
  show "\<exists>res db'. finalizeEmailProcessingStatus e emailDbRecord db = (Inr res, db')
         \<and> fin_success res
         \<and> run_finalize e emailDbRecord db = (Inr (), db')
         \<and> map pe_id (processed_emails db') = map pe_id (processed_emails db)
         \<and> (\<forall>row \<in> set (processed_emails db'). pe_id row = i \<longrightarrow>
               pe_status row = ''processed''
               \<and> pe_processed_at row = CURRENT_TIMESTAMP e ''finalizeEmailProcessingStatus'')
         \<and> (\<forall>row \<in> set (processed_emails db'). pe_id row \<noteq> i \<longrightarrow>
               row \<in> set (processed_emails db))
         \<and> expenses db' = expenses db"
  proof (intro exI conjI)
    show "finalizeEmailProcessingStatus e emailDbRecord db = (Inr res, db')" by (rule f)
    show "fin_success res" by (rule s)
    show "run_finalize e emailDbRecord db = (Inr (), db')" by (rule r)
    show "map pe_id (processed_emails db') = map pe_id (processed_emails db)" by (rule ids)
    show "\<forall>row \<in> set (processed_emails db'). pe_id row = i \<longrightarrow>
        pe_status row = ''processed''
        \<and> pe_processed_at row = CURRENT_TIMESTAMP e ''finalizeEmailProcessingStatus''"
      using upd unfolding now_def .
    show "\<forall>row \<in> set (processed_emails db'). pe_id row \<noteq> i \<longrightarrow>
        row \<in> set (processed_emails db)" by (rule oth)
    show "expenses db' = expenses db" by (rule ex)
  qed
qed

theorem finalizeEmailProcessingStatus_best_effort_witness:
  "missing (emailRecordId \<lparr>emailRecordId = None, rec_success = True\<rparr>)
   \<and> run_finalize example_env \<lparr>emailRecordId = None, rec_success = True\<rparr> example_db
       = (Inr (), example_db)
   \<and> (\<exists>res db'. finalizeEmailProcessingStatus example_env
          \<lparr>emailRecordId = Some 1, rec_success = True\<rparr>
          (example_db\<lparr>processed_emails := [example_ledger_row]\<rparr>) = (Inr res, db')
        \<and> map pe_status (processed_emails db') = [''processed''])"
proof -
  have m: "missing (emailRecordId \<lparr>emailRecordId = None, rec_success = True\<rparr>)"
    by (simp add: missing_def)
  note a = finalizeEmailProcessingStatus_best_effort
    [of "\<lparr>emailRecordId = None, rec_success = True\<rparr>" example_env example_db 1]
  note b = finalizeEmailProcessingStatus_best_effort
    [of "\<lparr>emailRecordId = Some 1, rec_success = True\<rparr>" example_env
        "example_db\<lparr>processed_emails := [example_ledger_row]\<rparr>" 1]
  from a m have r: "run_finalize example_env \<lparr>emailRecordId = None, rec_success = True\<rparr> example_db
       = (Inr (), example_db)" by blast
  have pre: "emailRecordId \<lparr>emailRecordId = Some 1, rec_success = True\<rparr> = Some 1 \<and> (1::int) \<noteq> 0"
    by simp
  from b [THEN conjunct2, THEN mp, OF pre] obtain res db' where
    f: "finalizeEmailProcessingStatus example_env \<lparr>emailRecordId = Some 1, rec_success = True\<rparr>
          (example_db\<lparr>processed_emails := [example_ledger_row]\<rparr>) = (Inr res, db')"
    and ids: "map pe_id (processed_emails db')
        = map pe_id (processed_emails (example_db\<lparr>processed_emails := [example_ledger_row]\<rparr>))"
    and upd: "\<forall>row \<in> set (processed_emails db'). pe_id row = 1 \<longrightarrow>
        pe_status row = ''processed''
        \<and> pe_processed_at row = CURRENT_TIMESTAMP example_env ''finalizeEmailProcessingStatus''"
    by (elim exE conjE)
  from ids have "map pe_id (processed_emails db') = [1]"
    by (simp add: example_ledger_row_def)
  then obtain row where row: "processed_emails db' = [row]" "pe_id row = 1"
    by (cases "processed_emails db'") simp_all
  with upd have st: "map pe_status (processed_emails db') = [''processed'']" by simp
  from f st have "\<exists>res db'. finalizeEmailProcessingStatus example_env
          \<lparr>emailRecordId = Some 1, rec_success = True\<rparr>
          (example_db\<lparr>processed_emails := [example_ledger_row]\<rparr>) = (Inr res, db')
        \<and> map pe_status (processed_emails db') = [''processed'']"
    by (intro exI [of _ res] exI [of _ db'] conjI)
  with m r show ?thesis by (intro conjI)
qed

text \<open>
  C10. Step 2 inserts its ledger entry with \<^verbatim>\<open>is_reimbursable\<close> 0; step 5 inserts its
  expense row with \<^verbatim>\<open>is_reimbursable\<close> 0 and status \<^verbatim>\<open>non_reimbursable\<close>; and a run
  adds at most one ledger entry and at most one expense row, all of them such, and
  changes the flag of no existing ledger entry.
\<close>

theorem pipeline_rows_never_reimbursable:
  "(recordInitialEmailProcessing e p db = (Inr rec, db2) \<longrightarrow>
      (\<exists>row. processed_emails db2 = processed_emails db @ [row] \<and> pe_is_reimbursable row = 0))
   \<and> (insertExpenseRecord e ai rec db = (Inr res, db5) \<longrightarrow>
      (\<exists>row. expenses db5 = expenses db @ [row] \<and> ex_is_reimbursable row = 0
         \<and> ex_status row = ''non_reimbursable''))
   \<and> (run e email db = (r, db') \<longrightarrow>
      (\<exists>k new_ex. k \<le> 1
         \<and> map pe_is_reimbursable (processed_emails db')
             = map pe_is_reimbursable (processed_emails db) @ replicate k 0
         \<and> length new_ex \<le> 1
         \<and> expenses db' = expenses db @ new_ex
         \<and> (\<forall>row \<in> set new_ex. ex_is_reimbursable row = 0
               \<and> ex_status row = ''non_reimbursable'')))"
proof (intro conjI impI)
  assume "recordInitialEmailProcessing e p db = (Inr rec, db2)"
  from recordInitialEmailProcessing_Inr [OF this]
  show "\<exists>row. processed_emails db2 = processed_emails db @ [row] \<and> pe_is_reimbursable row = 0"
    by blast
next
  assume "insertExpenseRecord e ai rec db = (Inr res, db5)"
  from insertExpenseRecord_Inr [OF this]
  show "\<exists>row. expenses db5 = expenses db @ [row] \<and> ex_is_reimbursable row = 0
      \<and> ex_status row = ''non_reimbursable''"
    by blast
next
  assume "run e email db = (r, db')"
  then show "\<exists>k new_ex. k \<le> 1
         \<and> map pe_is_reimbursable (processed_emails db')
             = map pe_is_reimbursable (processed_emails db) @ replicate k 0
         \<and> length new_ex \<le> 1
         \<and> expenses db' = expenses db @ new_ex
         \<and> (\<forall>row \<in> set new_ex. ex_is_reimbursable row = 0
               \<and> ex_status row = ''non_reimbursable'')"
    by (rule run_effect)
qed

theorem pipeline_rows_never_reimbursable_witness:
  "run example_env [] example_db = (Inr (), example_db_after_run)
   \<and> map pe_is_reimbursable (processed_emails example_db_after_run) = [0]
   \<and> map ex_is_reimbursable (expenses example_db_after_run) = [0]
   \<and> map ex_status (expenses example_db_after_run) = [''non_reimbursable'']"
proof -
  note t = pipeline_rows_never_reimbursable
    [where e = example_env and email = "[]" and db = example_db and r = "Inr ()"
       and db' = example_db_after_run]
  from t example_run obtain k new_ex where
    k: "k \<le> 1" "map pe_is_reimbursable (processed_emails example_db_after_run)
        = map pe_is_reimbursable (processed_emails example_db) @ replicate k 0"
      and n: "expenses example_db_after_run = expenses example_db @ new_ex"
        "\<forall>row \<in> set new_ex. ex_is_reimbursable row = 0 \<and> ex_status row = ''non_reimbursable''"
    by blast
  from k(2) have "length (processed_emails example_db_after_run) = k"
    using length_map [of pe_is_reimbursable "processed_emails example_db_after_run"]
    by (simp add: example_db_def)
  then have "k = 1" by (simp add: example_db_after_run_def)
  with k(2) have a: "map pe_is_reimbursable (processed_emails example_db_after_run) = [0]"
    by (simp add: example_db_def)
  from n(1) have ne: "new_ex = [example_expense_row]"
    by (simp add: example_db_def example_db_after_run_def)
  with n have b: "map ex_is_reimbursable (expenses example_db_after_run) = [0]"
    and c: "map ex_status (expenses example_db_after_run) = [''non_reimbursable'']"
    by (simp_all add: example_db_def)
  from example_run a b c show ?thesis by (intro conjI)
qed

end
